theory Spec2Isabelle
  imports Main "HOL-Library.Word" "HOL-Library.AList" "HOL-Library.Sublist" "HOL-Library.Multiset"
begin

section \<open>The coordinator's roller manager (coordinator/manager.go)\<close>

text \<open>
  The manager keeps the proof generation sessions of the coordinator. The model follows
  \<^verbatim>\<open>manager.go\<close> function by function, with explicit state passing: every function
  takes the \<open>Manager\<close> and returns the updated one inside an \<open>outcome\<close>. Go maps that
  are iterated (\<open>m.sessions\<close>, \<open>s.rollers\<close>) are association lists, read with
  \<open>map_of\<close> and written with \<open>AList.update\<close> and \<open>AList.delete\<close>. The map
  \<open>s.rollers\<close> and the channel \<open>s.finishChan\<close> are reference values in Go (the copy
  of the session held by \<open>CollectProofs\<close> shares them with the copy stored in
  \<open>m.sessions\<close>), so a session holds their addresses in two stores of the manager.
\<close>

subsection \<open>Data\<close>

type_synonym uint64 = "64 word"

text \<open>A Go \<open>error\<close> value is represented by its message; \<open>None\<close> is \<open>nil\<close>.\<close>

type_synonym error = string

datatype rollerStatus = rollerAssigned | rollerProofValid | rollerProofInvalid

type_synonym rollerProofStatus = "string \<times> rollerStatus"

record session =
  id_sess :: uint64
  rollers :: nat
  roller_names :: "(string \<times> string) list"
  startTime :: nat
  finishChan :: nat

text \<open>
  Modelled from the spec: the status column of a task (\<open>orm.BlockStatus\<close>, declared in
  the database package), one of Unassigned, Assigned, Proved, Verified, Failed.
\<close>

datatype BlockStatus =
  BlockUnassigned | BlockAssigned | BlockProved | BlockVerified | BlockFailed

text \<open>
  \<open>types.BlockResult\<close>, as far as the manager reads it: the block number (a big
  integer) and the trace payload.
\<close>

record BlockResult =
  Number :: int
  Traces :: string

text \<open>\<open>big.Int.Uint64\<close>: the low 64 bits of the absolute value.\<close>

definition Uint64 :: "int \<Rightarrow> uint64" where
  "Uint64 n = word_of_int (abs n)"

text \<open>The wire messages of \<open>common/message\<close> that the manager builds or reads.\<close>

datatype MsgType = MsgError | MsgRegister | MsgBlockTrace | MsgProof

record Msg =
  Type :: MsgType
  Payload :: string

record BlockTraces =
  bt_ID :: uint64
  bt_Traces :: BlockResult

datatype ProofStatus = StatusOk | StatusProofError

record AggProof =
  Proof :: string
  FinalPair :: string

record ProofMsg =
  Status :: ProofStatus
  Error :: string
  ID :: uint64
  msg_Proof :: AggProof

text \<open>
  Modelled from the spec: a connected prover (\<open>Roller\<close>, declared in another file of
  the package) has an identity (public key and name), a closed flag and a bounded send
  channel whose send may fail. \<open>sendErr\<close> is what \<open>sendMessage\<close> returns on this
  connection.
\<close>

record Roller =
  PublicKey :: string
  Name :: string
  closed :: bool
  sendErr :: "error option"

definition isClosed :: "Roller \<Rightarrow> bool" where
  "isClosed r = closed r"

definition sendMessage :: "Roller \<Rightarrow> Msg \<Rightarrow> error option" where
  "sendMessage r msg = sendErr r"

text \<open>
  Modelled from the spec: a failed session record (\<open>SessionInfo\<close>, built by
  \<open>newSessionInfo\<close> in another file of the package) is a snapshot of the session
  together with an error string; the status and the flag are the arguments the manager
  passes.
\<close>

record SessionInfo =
  info_id :: uint64
  info_rollers :: "(string \<times> rollerStatus) list"
  info_names :: "(string \<times> string) list"
  info_startTime :: nat
  info_status :: BlockStatus
  info_error :: string
  info_flag :: bool

subsection \<open>The task store\<close>

text \<open>
  Modelled from the spec: the TaskStore (\<open>orm.BlockResultOrm\<close>, an interface of the
  database package) keeps one row per task, keyed by block number, with a status
  column and the stored proof. Every operation may fail; \<open>faults\<close> lists the results
  of the coming calls (\<open>Some e\<close>: the call fails with \<open>e\<close> and changes no row; an
  exhausted list means success). \<open>calls\<close> records every call issued, with whether it
  succeeded.
\<close>

record task_row =
  block :: BlockResult
  status :: BlockStatus
  row_proof :: "string option"
  final_pair :: "string option"
  proof_time_sec :: "uint64 option"

datatype orm_call =
    CallUpdateBlockStatus uint64 BlockStatus
  | CallUpdateProofByNumber uint64
  | CallGetByStatus BlockStatus string int
  | CallGetByNumber uint64

record TaskStore =
  rows :: "(uint64 \<times> task_row) list"
  faults :: "error option list"
  calls :: "(orm_call \<times> bool) list"

definition next_fault :: "TaskStore \<Rightarrow> error option \<times> TaskStore" where
  "next_fault db =
     (case faults db of
        [] \<Rightarrow> (None, db)
      | f # fs \<Rightarrow> (f, db\<lparr>faults := fs\<rparr>))"

definition record_call :: "orm_call \<Rightarrow> bool \<Rightarrow> TaskStore \<Rightarrow> TaskStore" where
  "record_call c ok db = db\<lparr>calls := calls db @ [(c, ok)]\<rparr>"

definition UpdateBlockStatus ::
  "TaskStore \<Rightarrow> uint64 \<Rightarrow> BlockStatus \<Rightarrow> error option \<times> TaskStore" where
  "UpdateBlockStatus db n st =
     (case next_fault db of
        (Some e, db1) \<Rightarrow> (Some e, record_call (CallUpdateBlockStatus n st) False db1)
      | (None, db1) \<Rightarrow>
          (None, record_call (CallUpdateBlockStatus n st) True
             (db1\<lparr>rows := AList.map_entry n (\<lambda>r. r\<lparr>status := st\<rparr>) (rows db1)\<rparr>)))"

definition UpdateProofByNumber ::
  "TaskStore \<Rightarrow> uint64 \<Rightarrow> string \<Rightarrow> string \<Rightarrow> uint64 \<Rightarrow> error option \<times> TaskStore" where
  "UpdateProofByNumber db n p fp secs =
     (case next_fault db of
        (Some e, db1) \<Rightarrow> (Some e, record_call (CallUpdateProofByNumber n) False db1)
      | (None, db1) \<Rightarrow>
          (None, record_call (CallUpdateProofByNumber n) True
             (db1\<lparr>rows := AList.map_entry n
                (\<lambda>r. r\<lparr>row_proof := Some p, final_pair := Some fp, proof_time_sec := Some secs\<rparr>)
                (rows db1)\<rparr>)))"

text \<open>
  \<open>GetBlockResults\<close> with the field \<open>number\<close>: the rows of that block number.
\<close>

definition GetBlockResults_number ::
  "TaskStore \<Rightarrow> uint64 \<Rightarrow> (BlockResult list \<times> error option) \<times> TaskStore" where
  "GetBlockResults_number db n =
     (case next_fault db of
        (Some e, db1) \<Rightarrow> (([], Some e), record_call (CallGetByNumber n) False db1)
      | (None, db1) \<Rightarrow>
          ((map (\<lambda>(k, r). block r) (filter (\<lambda>(k, r). k = n) (rows db1)), None),
           record_call (CallGetByNumber n) True db1))"

text \<open>
  \<open>GetBlockResults\<close> with the field \<open>status\<close> and the clause
  \<open>ORDER BY number <order> LIMIT <limit>\<close>: the rows of that status, ordered by block
  number in the direction given (\<open>ASC\<close> or \<open>DESC\<close>; another word is not a valid
  clause and the query fails), at most \<open>limit\<close> of them.
\<close>

definition GetBlockResults_status ::
  "TaskStore \<Rightarrow> BlockStatus \<Rightarrow> string \<Rightarrow> int \<Rightarrow> (BlockResult list \<times> error option) \<times> TaskStore" where
  "GetBlockResults_status db st ord limit =
     (case next_fault db of
        (Some e, db1) \<Rightarrow> (([], Some e), record_call (CallGetByStatus st ord limit) False db1)
      | (None, db1) \<Rightarrow>
          (let hits = sort_key fst (filter (\<lambda>(k, r). status r = st) (rows db1)) in
           if ord = ''ASC'' then
             ((take (nat limit) (map (\<lambda>(k, r). block r) hits), None),
              record_call (CallGetByStatus st ord limit) True db1)
           else if ord = ''DESC'' then
             ((take (nat limit) (map (\<lambda>(k, r). block r) (rev hits)), None),
              record_call (CallGetByStatus st ord limit) True db1)
           else
             (([], Some ''invalid ORDER BY clause''),
              record_call (CallGetByStatus st ord limit) False db1)))"

text \<open>Whether the coming call on the store succeeds.\<close>

definition next_ok :: "TaskStore \<Rightarrow> bool" where
  "next_ok db = (case faults db of [] \<Rightarrow> True | f # fs \<Rightarrow> f = None)"

text \<open>The status of a task in the store, and the status writes that succeeded on it.\<close>

definition status_of :: "TaskStore \<Rightarrow> uint64 \<Rightarrow> BlockStatus option" where
  "status_of db n = map_option status (map_of (rows db) n)"

fun status_writes :: "uint64 \<Rightarrow> (orm_call \<times> bool) list \<Rightarrow> BlockStatus list" where
  "status_writes n [] = []"
| "status_writes n ((CallUpdateBlockStatus k st, ok) # cs) =
     (if k = n \<and> ok then st # status_writes n cs else status_writes n cs)"
| "status_writes n (c # cs) = status_writes n cs"

subsection \<open>The manager\<close>

text \<open>
  \<open>conns\<close> is the connection registry of the server (\<open>m.server.conns\<close>), \<open>rand_src\<close>
  the numbers the global source of \<open>math/rand\<close> will produce, \<open>sent\<close> the frames
  delivered to provers, \<open>rollerMaps\<close> and \<open>chans\<close> the stores of the sessions'
  maps and channels, \<open>goroutines\<close> the \<open>CollectProofs\<close> goroutines started and not
  yet returned. The verifier is the RPC of the spec: it returns a verdict and an error.
\<close>

record Manager =
  OrderSession :: string
  conns :: "Roller list"
  rand_src :: "nat list"
  sent :: "(string \<times> Msg) list"
  sessions :: "(uint64 \<times> session) list"
  failedSessionInfos :: "(uint64 \<times> SessionInfo) list"
  rollerMaps :: "(string \<times> rollerStatus) list list"
  chans :: "rollerProofStatus list list"
  verifier :: "(BlockResult \<Rightarrow> AggProof \<Rightarrow> bool \<times> error option) option"
  orm :: "TaskStore option"
  goroutines :: "(uint64 \<times> session) list"

text \<open>
  How a call ends: it returns a value, it panics (a call on the nil \<open>m.orm\<close>, a write
  to a nil map), or it blocks on a channel operation that cannot proceed.
\<close>

datatype 'a outcome = Returned 'a Manager | Panicked Manager | Blocked Manager

fun state_of :: "'a outcome \<Rightarrow> Manager" where
  "state_of (Returned x m) = m"
| "state_of (Panicked m) = m"
| "state_of (Blocked m) = m"

definition proofAndPkBufferSize :: nat where
  "proofAndPkBufferSize = 10"

text \<open>
  The map \<open>s.rollers\<close>; an address outside the store is the nil map, which reads as
  empty.
\<close>

definition rollers_of :: "Manager \<Rightarrow> session \<Rightarrow> (string \<times> rollerStatus) list" where
  "rollers_of m s = (if rollers s < length (rollerMaps m) then rollerMaps m ! rollers s else [])"

text \<open>
  A send on \<open>s.finishChan\<close>: it blocks (\<open>None\<close>) when the buffer holds
  \<open>proofAndPkBufferSize\<close> values, and on the nil channel.
\<close>

definition chan_send :: "Manager \<Rightarrow> nat \<Rightarrow> rollerProofStatus \<Rightarrow> Manager option" where
  "chan_send m c v =
     (if c < length (chans m) \<and> length (chans m ! c) < proofAndPkBufferSize
      then Some (m\<lparr>chans := (chans m)[c := chans m ! c @ [v]]\<rparr>)
      else None)"

text \<open>\<open>mathrand.Intn n\<close> for \<open>0 < n\<close>: the next number of the source, below \<open>n\<close>.\<close>

definition Intn :: "Manager \<Rightarrow> nat \<Rightarrow> nat \<times> Manager" where
  "Intn m n =
     (case rand_src m of
        [] \<Rightarrow> (0, m)
      | r # rs \<Rightarrow> (r mod n, m\<lparr>rand_src := rs\<rparr>))"

fun newSessionInfo :: "Manager \<Rightarrow> session \<Rightarrow> BlockStatus \<Rightarrow> string \<Rightarrow> bool \<Rightarrow> SessionInfo" where
  "newSessionInfo m s st errMsg flag =
     \<lparr>info_id = id_sess s, info_rollers = rollers_of m s, info_names = roller_names s,
      info_startTime = startTime s, info_status = st, info_error = errMsg,
      info_flag = flag\<rparr>"

definition addFailedSession :: "Manager \<Rightarrow> session \<Rightarrow> string \<Rightarrow> Manager" where
  "addFailedSession m s errMsg =
     m\<lparr>failedSessionInfos :=
         AList.update (id_sess s) (newSessionInfo m s BlockFailed errMsg True)
           (failedSessionInfos m)\<rparr>"

subsection \<open>Selecting an idle roller\<close>

text \<open>
  \<open>IsRollerIdle\<close>: no session lists the key with status \<open>rollerAssigned\<close>.
\<close>

definition IsRollerIdle :: "Manager \<Rightarrow> string \<Rightarrow> bool" where
  "IsRollerIdle m hexPk =
     (\<not> list_ex (\<lambda>(k, sess).
          list_ex (\<lambda>(pk, st). pk = hexPk \<and> st = rollerAssigned) (rollers_of m sess))
        (sessions m))"

definition GetNumberOfIdleRollers :: "Manager \<Rightarrow> int" where
  "GetNumberOfIdleRollers m =
     int (length (filter (\<lambda>roller. IsRollerIdle m (PublicKey roller)) (conns m)))"

text \<open>
  The statement \<open>allRollers[idx], allRollers = allRollers[0], allRollers[1:]\<close>: both
  right-hand sides are read first, then the element at \<open>idx\<close> is overwritten with the
  head and the slice loses its head.
\<close>

definition drop_at :: "nat \<Rightarrow> 'a list \<Rightarrow> 'a list" where
  "drop_at idx allRollers = tl (allRollers[idx := hd allRollers])"

text \<open>
  One iteration of the loop of \<open>SelectRoller\<close> on a non-empty slice: it returns the
  connection picked (\<open>Inl\<close>) or continues with the shorter slice (\<open>Inr\<close>); a closed
  connection is deleted from the registry on the way.
\<close>

definition SelectRoller_body ::
  "Manager \<Rightarrow> Roller list \<Rightarrow> (Roller \<times> Manager) + (Manager \<times> Roller list)" where
  "SelectRoller_body m allRollers =
     (case Intn m (length allRollers) of
        (idx, m1) \<Rightarrow>
          (let conn = allRollers ! idx; pk = PublicKey conn in
           if isClosed conn then
             Inr (m1\<lparr>conns := removeAll conn (conns m1)\<rparr>, drop_at idx allRollers)
           else if \<not> IsRollerIdle m1 pk then
             Inr (m1, drop_at idx allRollers)
           else Inl (conn, m1)))"

lemma length_drop_at: "allRollers \<noteq> [] \<Longrightarrow> Suc (length (drop_at idx allRollers)) = length allRollers"
proof -
  assume "allRollers \<noteq> []"
  then have "0 < length allRollers" by simp
  then show ?thesis by (simp add: drop_at_def)
qed

lemma SelectRoller_body_shrinks:
  "allRollers \<noteq> [] \<Longrightarrow> SelectRoller_body m allRollers = Inr (m', rest) \<Longrightarrow>
   Suc (length rest) = length allRollers"
  by (auto simp: SelectRoller_body_def Let_def length_drop_at split: prod.splits if_splits)

function SelectRoller_loop :: "Manager \<Rightarrow> Roller list \<Rightarrow> Roller option \<times> Manager" where
  "SelectRoller_loop m allRollers =
     (if allRollers = [] then (None, m)
      else (case SelectRoller_body m allRollers of
              Inl (conn, m1) \<Rightarrow> (Some conn, m1)
            | Inr (m1, rest) \<Rightarrow> SelectRoller_loop m1 rest))"
  by pat_completeness auto
termination
proof (relation "measure (\<lambda>(m, allRollers). length allRollers)")
  show "wf (measure (\<lambda>(m, allRollers). length allRollers))"
    by simp
next
  fix m :: Manager and allRollers x2 m1 rest
  assume "allRollers \<noteq> []" and "SelectRoller_body m allRollers = Inr x2" and "(m1, rest) = x2"
  then have "Suc (length rest) = length allRollers"
    using SelectRoller_body_shrinks [of allRollers m m1 rest] by simp
  then show "((m1, rest), (m, allRollers)) \<in> measure (\<lambda>(m, allRollers). length allRollers)"
    by simp
qed

definition SelectRoller :: "Manager \<Rightarrow> Roller option \<times> Manager" where
  "SelectRoller m = SelectRoller_loop m (conns m)"

text \<open>The number of iterations the loop of \<open>SelectRoller\<close> runs on a slice.\<close>

function SelectRoller_iterations :: "Manager \<Rightarrow> Roller list \<Rightarrow> nat" where
  "SelectRoller_iterations m allRollers =
     (if allRollers = [] then 0
      else (case SelectRoller_body m allRollers of
              Inl (conn, m1) \<Rightarrow> 1
            | Inr (m1, rest) \<Rightarrow> Suc (SelectRoller_iterations m1 rest)))"
  by pat_completeness auto
termination
proof (relation "measure (\<lambda>(m, allRollers). length allRollers)")
  show "wf (measure (\<lambda>(m, allRollers). length allRollers))"
    by simp
next
  fix m :: Manager and allRollers x2 m1 rest
  assume "allRollers \<noteq> []" and "SelectRoller_body m allRollers = Inr x2" and "(m1, rest) = x2"
  then have "Suc (length rest) = length allRollers"
    using SelectRoller_body_shrinks [of allRollers m m1 rest] by simp
  then show "((m1, rest), (m, allRollers)) \<in> measure (\<lambda>(m, allRollers). length allRollers)"
    by simp
qed

subsection \<open>Starting a session\<close>

text \<open>
  \<open>createBlockTracesMsg\<close>; \<open>jsonMarshal\<close> is \<open>json.Marshal\<close> on the frame, which
  returns the payload or an error.
\<close>

definition createBlockTracesMsg ::
  "(BlockTraces \<Rightarrow> error + string) \<Rightarrow> BlockResult \<Rightarrow> error + Msg" where
  "createBlockTracesMsg jsonMarshal traces =
     (let idAndTraces = \<lparr>bt_ID = Uint64 (Number traces), bt_Traces = traces\<rparr> in
      case jsonMarshal idAndTraces of
        Inl err \<Rightarrow> Inl err
      | Inr payload \<Rightarrow> Inr \<lparr>Type = MsgBlockTrace, Payload = payload\<rparr>)"

text \<open>
  \<open>StartProofGenerationSession\<close>; \<open>now\<close> is the reading of the clock, in seconds.
  The deferred function runs when the call returns: it resets the status when the
  update to \<open>BlockAssigned\<close> failed. The new session gets a fresh map and a fresh
  channel. A nil \<open>m.orm\<close> makes the update panic, after the session was stored.
\<close>

definition StartProofGenerationSession ::
  "(BlockTraces \<Rightarrow> error + string) \<Rightarrow> nat \<Rightarrow> Manager \<Rightarrow> BlockResult \<Rightarrow> bool outcome" where
  "StartProofGenerationSession jsonMarshal now m trace =
     (case SelectRoller m of
        (None, m1) \<Rightarrow> Returned False m1
      | (Some roller, m1) \<Rightarrow>
          if isClosed roller then Returned False m1
          else
            (let id' = Uint64 (Number trace); pk = PublicKey roller in
             case createBlockTracesMsg jsonMarshal trace of
               Inl err \<Rightarrow> Returned False m1
             | Inr msg \<Rightarrow>
                 (case sendMessage roller msg of
                    Some err \<Rightarrow> Returned False m1
                  | None \<Rightarrow>
                      (let m2 = m1\<lparr>sent := sent m1 @ [(pk, msg)]\<rparr>;
                           s = \<lparr>id_sess = id', rollers = length (rollerMaps m2),
                                roller_names = [(pk, Name roller)], startTime = now,
                                finishChan = length (chans m2)\<rparr>;
                           m3 = m2\<lparr>rollerMaps := rollerMaps m2 @ [[(pk, rollerAssigned)]],
                                   chans := chans m2 @ [[]],
                                   sessions := AList.update id' s (sessions m2)\<rparr>
                       in case orm m3 of
                            None \<Rightarrow> Panicked m3
                          | Some db \<Rightarrow>
                              (case UpdateBlockStatus db id' BlockAssigned of
                                 (dbErr, db1) \<Rightarrow>
                                   (let m4 = m3\<lparr>orm := Some db1,
                                                 goroutines := goroutines m3 @ [(id', s)]\<rparr>
                                    in if dbErr \<noteq> None then
                                         Returned True
                                           (m4\<lparr>orm := Some (snd (UpdateBlockStatus db1 id' BlockUnassigned))\<rparr>)
                                       else Returned True m4))))))"

subsection \<open>Handling a proof\<close>

text \<open>
  The deferred function of \<open>HandleZkProof\<close>, run when the handler returns \<open>ret\<close>
  with the variables \<open>dbErr\<close> and \<open>success\<close> as they stand: the rollback of the
  status, then the send on the channel of the session.
\<close>

definition HandleZkProof_deferred ::
  "Manager \<Rightarrow> TaskStore \<Rightarrow> session \<Rightarrow> string \<Rightarrow> uint64 \<Rightarrow> error option \<Rightarrow> bool \<Rightarrow>
   error option \<Rightarrow> error option outcome" where
  "HandleZkProof_deferred m db s pk n dbErr success ret =
     (let db1 = (if dbErr \<noteq> None then snd (UpdateBlockStatus db n BlockUnassigned) else db);
          st = (if success \<and> dbErr = None then rollerProofValid else rollerProofInvalid);
          m1 = m\<lparr>orm := Some db1\<rparr>
      in case chan_send m1 (finishChan s) (pk, st) of
           None \<Rightarrow> Blocked m1
         | Some m2 \<Rightarrow> Returned ret m2)"

text \<open>The last step of \<open>HandleZkProof\<close>: the status the verdict asks for.\<close>

definition HandleZkProof_final ::
  "Manager \<Rightarrow> TaskStore \<Rightarrow> session \<Rightarrow> string \<Rightarrow> uint64 \<Rightarrow> bool \<Rightarrow> error option outcome" where
  "HandleZkProof_final m db s pk n success =
     (let st = (if success then BlockVerified else BlockFailed) in
      case UpdateBlockStatus db n st of
        (dbErr, db1) \<Rightarrow> HandleZkProof_deferred m db1 s pk n dbErr success dbErr)"

text \<open>
  The handling of a proof that is accepted for handling, from the log line "Received
  zk proof" to the end of \<open>HandleZkProof\<close>: the session \<open>s\<close> was found and the
  sender is a participant that has not yet sent in a valid proof. With a nil \<open>m.orm\<close>
  the first call on it panics, and the deferred function still sends.
\<close>

definition HandleZkProof_accepted ::
  "Manager \<Rightarrow> string \<Rightarrow> ProofMsg \<Rightarrow> session \<Rightarrow> uint64 \<Rightarrow> error option outcome" where
  "HandleZkProof_accepted m pk msg s proofTimeSec =
     (case orm m of
        None \<Rightarrow>
          (case chan_send m (finishChan s) (pk, rollerProofInvalid) of
             None \<Rightarrow> Blocked m
           | Some m1 \<Rightarrow> Panicked m1)
      | Some db \<Rightarrow>
          if Status msg \<noteq> StatusOk then
            (case UpdateBlockStatus db (ID msg) BlockFailed of
               (dbErr, db1) \<Rightarrow>
                 HandleZkProof_deferred (addFailedSession m s (Error msg))
                   db1 s pk (ID msg) dbErr False None)
          else
            (case UpdateProofByNumber db (ID msg) (Proof (msg_Proof msg))
                    (FinalPair (msg_Proof msg)) proofTimeSec of
               (Some err, db1) \<Rightarrow>
                 HandleZkProof_deferred m db1 s pk (ID msg) (Some err) False (Some err)
             | (None, db1) \<Rightarrow>
                 (case UpdateBlockStatus db1 (ID msg) BlockProved of
                    (Some err, db2) \<Rightarrow>
                      HandleZkProof_deferred m db2 s pk (ID msg) (Some err) False (Some err)
                  | (None, db2) \<Rightarrow>
                      (case verifier m of
                         Some v \<Rightarrow>
                           (case GetBlockResults_number db2 (ID msg) of
                              ((blockResults, err), db3) \<Rightarrow>
                                if length blockResults = 0 then
                                  HandleZkProof_deferred m db3 s pk (ID msg) None False err
                                else
                                  (case v (hd blockResults) (msg_Proof msg) of
                                     (success, Some verr) \<Rightarrow>
                                       HandleZkProof_final (addFailedSession m s verr) db3 s pk
                                         (ID msg) False
                                   | (success, None) \<Rightarrow>
                                       HandleZkProof_final m db3 s pk (ID msg) success))
                       | None \<Rightarrow> HandleZkProof_final m db2 s pk (ID msg) True))))"

text \<open>
  \<open>HandleZkProof\<close>; \<open>decoded\<close> is what \<open>json.Unmarshal\<close> makes of the payload (an
  error or the message), \<open>now\<close> the reading of the clock in seconds. The session is
  looked up, the time since its start is taken, and the sender is checked: a sender
  that is no participant is refused, and a participant whose recorded status is
  \<open>rollerProofValid\<close> gets success at once; every other proof is handled.
\<close>

definition HandleZkProof ::
  "Manager \<Rightarrow> nat \<Rightarrow> string \<Rightarrow> error + ProofMsg \<Rightarrow> error option outcome" where
  "HandleZkProof m now pk decoded =
     (case decoded of
        Inl err \<Rightarrow> Returned (Some err) m
      | Inr msg \<Rightarrow>
          (case map_of (sessions m) (ID msg) of
             None \<Rightarrow> Returned (Some ''proof generation session does not exist'') m
           | Some s \<Rightarrow>
               (let proofTimeSec = (word_of_nat (now - startTime s) :: uint64) in
                case map_of (rollers_of m s) pk of
                  None \<Rightarrow> Returned (Some ''roller is not eligible to partake in proof session'') m
                | Some status' \<Rightarrow>
                    if status' = rollerProofValid then Returned None m
                    else HandleZkProof_accepted m pk msg s proofTimeSec)))"

subsection \<open>Collecting the proofs of a session\<close>

text \<open>
  \<open>CollectProofs id s\<close> waits on two events. The first, \<open>ret := <-s.finishChan\<close>:
  the status received is written into \<open>s.rollers\<close>. The call stays blocked when the
  channel holds nothing; writing into a nil map panics.
\<close>

definition CollectProofs_recv :: "Manager \<Rightarrow> session \<Rightarrow> unit outcome" where
  "CollectProofs_recv m s =
     (if finishChan s < length (chans m) then
        (case chans m ! finishChan s of
           [] \<Rightarrow> Blocked m
         | ret # queue \<Rightarrow>
             (let m1 = m\<lparr>chans := (chans m)[finishChan s := queue]\<rparr> in
              if rollers s < length (rollerMaps m1) then
                Returned ()
                  (m1\<lparr>rollerMaps := (rollerMaps m1)[rollers s :=
                        AList.update (fst ret) (snd ret) (rollerMaps m1 ! rollers s)]\<rparr>)
              else Panicked m1))
      else Blocked m)"

text \<open>
  The second event, the timer: the session is finalized. The deferred function deletes
  the entry of \<open>id\<close> from \<open>m.sessions\<close> on every way out, and the goroutine ends.
\<close>

definition errMsg_no_valid_proofs :: string where
  "errMsg_no_valid_proofs = ''proof generation session ended without receiving any valid proofs''"

definition CollectProofs_deferred :: "Manager \<Rightarrow> uint64 \<Rightarrow> session \<Rightarrow> Manager" where
  "CollectProofs_deferred m n s =
     m\<lparr>sessions := AList.delete n (sessions m), goroutines := remove1 (n, s) (goroutines m)\<rparr>"

text \<open>The keys of \<open>s.rollers\<close> that sent in a valid proof.\<close>

definition participatingRollers :: "Manager \<Rightarrow> session \<Rightarrow> string list" where
  "participatingRollers m s =
     map fst (filter (\<lambda>(pk, st). st = rollerProofValid) (rollers_of m s))"

definition CollectProofs_timer :: "Manager \<Rightarrow> uint64 \<Rightarrow> session \<Rightarrow> unit outcome" where
  "CollectProofs_timer m n s =
     (if length (participatingRollers m s) = 0 then
        (let m1 = addFailedSession m s errMsg_no_valid_proofs in
         case orm m1 of
           None \<Rightarrow> Panicked (CollectProofs_deferred m1 n s)
         | Some db \<Rightarrow>
             (case UpdateBlockStatus db n BlockFailed of
                (err, db1) \<Rightarrow> Returned () (CollectProofs_deferred (m1\<lparr>orm := Some db1\<rparr>) n s)))
      else
        (case Intn m (length (participatingRollers m s)) of
           (randIndex, m1) \<Rightarrow> Returned () (CollectProofs_deferred m1 n s)))"

subsection \<open>The dispatcher\<close>

text \<open>
  The inner loop of a tick: sessions are started for the traces at the head of the
  buffer until one cannot be started; what is left of the buffer is returned.
\<close>

fun dispatch ::
  "(BlockTraces \<Rightarrow> error + string) \<Rightarrow> nat \<Rightarrow> Manager \<Rightarrow> BlockResult list \<Rightarrow>
   BlockResult list outcome" where
  "dispatch jsonMarshal now m [] = Returned [] m"
| "dispatch jsonMarshal now m (t # traces) =
     (case StartProofGenerationSession jsonMarshal now m t of
        Returned ok m1 \<Rightarrow>
          if ok then dispatch jsonMarshal now m1 traces else Returned (t # traces) m1
      | Panicked m1 \<Rightarrow> Panicked m1
      | Blocked m1 \<Rightarrow> Blocked m1)"

text \<open>
  The case \<open><-tick.C\<close> of \<open>Loop\<close>, on the buffer \<open>traces\<close>: the buffer after the
  tick is returned with the manager. When the query fails the tick ends at once
  (\<open>continue\<close>) with the buffer the query returned.
\<close>

definition Loop_tick ::
  "(BlockTraces \<Rightarrow> error + string) \<Rightarrow> nat \<Rightarrow> Manager \<Rightarrow> BlockResult list \<Rightarrow>
   BlockResult list outcome" where
  "Loop_tick jsonMarshal now m traces =
     (case orm m of
        Some db \<Rightarrow>
          if length traces = 0 then
            (let numIdleRollers = GetNumberOfIdleRollers m in
             case GetBlockResults_status db BlockUnassigned (OrderSession m) numIdleRollers of
               ((traces1, err), db1) \<Rightarrow>
                 if err \<noteq> None then Returned traces1 (m\<lparr>orm := Some db1\<rparr>)
                 else dispatch jsonMarshal now (m\<lparr>orm := Some db1\<rparr>) traces1)
          else dispatch jsonMarshal now m traces
      | None \<Rightarrow> dispatch jsonMarshal now m traces)"

text \<open>
  Two managers that agree on everything but the connection registry and the random
  source.
\<close>

definition same_sessions :: "Manager \<Rightarrow> Manager \<Rightarrow> bool" where
  "same_sessions m1 m \<longleftrightarrow>
     sent m1 = sent m \<and> sessions m1 = sessions m \<and>
     failedSessionInfos m1 = failedSessionInfos m \<and> rollerMaps m1 = rollerMaps m \<and>
     chans m1 = chans m \<and> verifier m1 = verifier m \<and> orm m1 = orm m \<and>
     goroutines m1 = goroutines m \<and> OrderSession m1 = OrderSession m"

subsection \<open>Executions\<close>

text \<open>
  An execution of the manager is a sequence of calls, each taken as a whole and each
  with the reading of the clock at the call: a session is started for a trace, a proof
  message arrives from a roller, a \<open>CollectProofs\<close> goroutine that was started
  receives from its channel or sees its timer fire, or the server changes the connection
  registry. A call that blocks or panics leaves the manager as it was at that point.
\<close>

datatype event =
    EvStart BlockResult
  | EvProof string "error + ProofMsg"
  | EvRecv uint64 session
  | EvTimer uint64 session
  | EvConns "Roller list"

fun fire :: "(BlockTraces \<Rightarrow> error + string) \<Rightarrow> Manager \<Rightarrow> nat \<times> event \<Rightarrow> Manager" where
  "fire jsonMarshal m (now, EvStart trace) =
     state_of (StartProofGenerationSession jsonMarshal now m trace)"
| "fire jsonMarshal m (now, EvProof pk decoded) = state_of (HandleZkProof m now pk decoded)"
| "fire jsonMarshal m (now, EvRecv n s) =
     (if (n, s) \<in> set (goroutines m) then state_of (CollectProofs_recv m s) else m)"
| "fire jsonMarshal m (now, EvTimer n s) =
     (if (n, s) \<in> set (goroutines m) then state_of (CollectProofs_timer m n s) else m)"
| "fire jsonMarshal m (now, EvConns rs) = m\<lparr>conns := rs\<rparr>"

fun run :: "(BlockTraces \<Rightarrow> error + string) \<Rightarrow> Manager \<Rightarrow> (nat \<times> event) list \<Rightarrow> Manager" where
  "run jsonMarshal m [] = m"
| "run jsonMarshal m (ev # evs) = run jsonMarshal (fire jsonMarshal m ev) evs"



text \<open>The status writes that succeeded on a task, in the order of the calls.\<close>

definition writes_of :: "Manager \<Rightarrow> uint64 \<Rightarrow> BlockStatus list" where
  "writes_of m n = (case orm m of None \<Rightarrow> [] | Some db \<Rightarrow> status_writes n (calls db))"


text \<open>
  \<open>New\<close>: the manager as it is created, with no connection yet, no session and no
  failed session record; the verifier is present when an endpoint is configured.
\<close>

definition New ::
  "string \<Rightarrow> (BlockResult \<Rightarrow> AggProof \<Rightarrow> bool \<times> error option) option \<Rightarrow> TaskStore option \<Rightarrow>
   nat list \<Rightarrow> Manager" where
  "New order v db rs =
     \<lparr>OrderSession = order, conns = [], rand_src = rs, sent = [], sessions = [],
      failedSessionInfos = [], rollerMaps = [], chans = [], verifier = v, orm = db,
      goroutines = []\<rparr>"

text \<open>The status writes one call of \<open>HandleZkProof\<close> can make on a task.\<close>

definition proof_blocks :: "BlockStatus list list" where
  "proof_blocks = [[], [BlockUnassigned], [BlockFailed], [BlockProved],
     [BlockProved, BlockUnassigned], [BlockProved, BlockVerified], [BlockProved, BlockFailed]]"

text \<open>
  The status writes one call can make on a task: \<open>BlockAssigned\<close> when a session
  is started, or one of the blocks of \<open>HandleZkProof\<close>, which also cover the reset
  of a failed start and the write of the deadline.
\<close>

definition call_blocks :: "BlockStatus list list" where
  "call_blocks = [BlockAssigned] # proof_blocks"

text \<open>
  The sequences of status values that the specification lists for one task, from the
  initial \<open>BlockUnassigned\<close> on.
\<close>

definition claimed_sequences :: "BlockStatus list list" where
  "claimed_sequences =
     [[BlockUnassigned, BlockAssigned, BlockProved, BlockVerified],
      [BlockUnassigned, BlockAssigned, BlockProved, BlockFailed],
      [BlockUnassigned, BlockAssigned, BlockFailed],
      [BlockUnassigned, BlockAssigned, BlockUnassigned]]"

section \<open>Example states\<close>

definition ex_closed :: Roller where
  "ex_closed = \<lparr>PublicKey = ''pkA'', Name = ''A'', closed = True, sendErr = None\<rparr>"

definition ex_busy :: Roller where
  "ex_busy = \<lparr>PublicKey = ''pkB'', Name = ''B'', closed = False, sendErr = None\<rparr>"

definition ex_idle :: Roller where
  "ex_idle = \<lparr>PublicKey = ''pkC'', Name = ''C'', closed = False, sendErr = None\<rparr>"

definition ex_db :: TaskStore where
  "ex_db = \<lparr>rows = [(100, \<lparr>block = \<lparr>Number = 100, Traces = ''t''\<rparr>, status = BlockUnassigned,
                 row_proof = None, final_pair = None, proof_time_sec = None\<rparr>)],
            faults = [], calls = []\<rparr>"

definition ex_session :: session where
  "ex_session = \<lparr>id_sess = 7, rollers = 0, roller_names = [(''pkB'', ''B'')], startTime = 0,
                  finishChan = 0\<rparr>"

definition ex_manager :: Manager where
  "ex_manager = \<lparr>OrderSession = ''ASC'', conns = [ex_closed, ex_busy, ex_idle],
     rand_src = [0, 0, 0], sent = [], sessions = [(7, ex_session)], failedSessionInfos = [],
     rollerMaps = [[(''pkB'', rollerAssigned)]], chans = [[]], verifier = None,
     orm = Some ex_db, goroutines = [(7, ex_session)]\<rparr>"

definition ex_trace :: BlockResult where
  "ex_trace = \<lparr>Number = 100, Traces = ''t''\<rparr>"

definition ex_marshal :: "BlockTraces \<Rightarrow> error + string" where
  "ex_marshal bt = Inr ''frame''"

definition ex_deaf :: Roller where
  "ex_deaf = \<lparr>PublicKey = ''pkD'', Name = ''D'', closed = False, sendErr = Some ''send failed''\<rparr>"

definition ex_manager_deaf :: Manager where
  "ex_manager_deaf = ex_manager\<lparr>conns := [ex_deaf]\<rparr>"

definition ex_db_failing :: TaskStore where
  "ex_db_failing = ex_db\<lparr>faults := [Some ''db down'']\<rparr>"

definition ex_manager_one :: Manager where
  "ex_manager_one = ex_manager\<lparr>conns := [ex_idle], orm := Some ex_db_failing\<rparr>"

lemmas ex_defs = ex_manager_def ex_closed_def ex_busy_def ex_idle_def ex_session_def ex_db_def
  ex_trace_def ex_marshal_def ex_deaf_def ex_manager_deaf_def ex_db_failing_def ex_manager_one_def

lemmas store_defs = UpdateBlockStatus_def UpdateProofByNumber_def GetBlockResults_number_def
  GetBlockResults_status_def next_fault_def record_call_def status_of_def

lemmas select_defs = SelectRoller_def SelectRoller_body_def Intn_def isClosed_def IsRollerIdle_def
  rollers_of_def drop_at_def

lemmas start_defs = StartProofGenerationSession_def createBlockTracesMsg_def sendMessage_def
  Uint64_def

definition ex_manager_none :: Manager where
  "ex_manager_none = ex_manager\<lparr>conns := [ex_busy]\<rparr>"

definition ex_db_assigned :: TaskStore where
  "ex_db_assigned = \<lparr>rows = [(100, \<lparr>block = ex_trace, status = BlockAssigned,
                 row_proof = None, final_pair = None, proof_time_sec = None\<rparr>)],
            faults = [], calls = []\<rparr>"

definition ex_session_100 :: session where
  "ex_session_100 = \<lparr>id_sess = 100, rollers = 0, roller_names = [(''pkC'', ''C'')],
                      startTime = 5, finishChan = 0\<rparr>"

definition ex_manager_running :: Manager where
  "ex_manager_running = \<lparr>OrderSession = ''ASC'', conns = [ex_idle],
     rand_src = [0, 0, 0], sent = [], sessions = [(100, ex_session_100)],
     failedSessionInfos = [], rollerMaps = [[(''pkC'', rollerAssigned)]], chans = [[]],
     verifier = None, orm = Some ex_db_assigned, goroutines = [(100, ex_session_100)]\<rparr>"

definition ex_manager_proved :: Manager where
  "ex_manager_proved = ex_manager_running\<lparr>rollerMaps := [[(''pkC'', rollerProofValid)]]\<rparr>"

lemmas ex_running_defs = ex_db_assigned_def ex_session_100_def ex_manager_running_def
  ex_manager_proved_def ex_trace_def ex_idle_def

definition ex_msg_ok :: ProofMsg where
  "ex_msg_ok = \<lparr>Status = StatusOk, Error = [], ID = 100,
                 msg_Proof = \<lparr>Proof = ''AA'', FinalPair = ''BB''\<rparr>\<rparr>"

definition ex_row_100 :: task_row where
  "ex_row_100 = \<lparr>block = ex_trace, status = BlockAssigned, row_proof = None,
                  final_pair = None, proof_time_sec = None\<rparr>"

definition ex_verifier_err :: "BlockResult \<Rightarrow> AggProof \<Rightarrow> bool \<times> error option" where
  "ex_verifier_err b p = (True, Some ''rpc down'')"

definition ex_verifier_false :: "BlockResult \<Rightarrow> AggProof \<Rightarrow> bool \<times> error option" where
  "ex_verifier_false b p = (False, None)"

definition ex_verifier_true :: "BlockResult \<Rightarrow> AggProof \<Rightarrow> bool \<times> error option" where
  "ex_verifier_true b p = (True, None)"

definition ex_manager_verifying ::
  "(BlockResult \<Rightarrow> AggProof \<Rightarrow> bool \<times> error option) \<Rightarrow> Manager" where
  "ex_manager_verifying v = ex_manager_running\<lparr>verifier := Some v\<rparr>"

definition ex_db_read_fault :: TaskStore where
  "ex_db_read_fault = ex_db_assigned\<lparr>faults := [None, None, Some ''db read failed'']\<rparr>"

definition ex_manager_read_fault :: Manager where
  "ex_manager_read_fault = ex_manager_running\<lparr>verifier := Some ex_verifier_true,
     orm := Some ex_db_read_fault\<rparr>"

lemmas handle_defs = HandleZkProof_def HandleZkProof_accepted_def HandleZkProof_deferred_def HandleZkProof_final_def
  chan_send_def proofAndPkBufferSize_def addFailedSession_def

definition ex_verifier_checks :: "BlockResult \<Rightarrow> AggProof \<Rightarrow> bool \<times> error option" where
  "ex_verifier_checks b p = (Proof p = ''AA'', None)"

definition ex_msg_bad :: ProofMsg where
  "ex_msg_bad = \<lparr>Status = StatusOk, Error = [], ID = 100,
                  msg_Proof = \<lparr>Proof = ''ZZ'', FinalPair = ''BB''\<rparr>\<rparr>"

definition ex_new :: Manager where
  "ex_new = New ''ASC'' (Some ex_verifier_checks) (Some ex_db) [0, 0, 0]"


definition ex_events_invalid :: "(nat \<times> event) list" where
  "ex_events_invalid = [(1, EvConns [ex_idle]), (5, EvStart ex_trace),
     (9, EvProof ''pkC'' (Inr ex_msg_bad)), (10, EvRecv 100 ex_session_100)]"

lemmas run_defs = New_def ex_new_def ex_verifier_checks_def ex_msg_bad_def ex_msg_ok_def
  ex_session_100_def ex_trace_def ex_idle_def ex_db_def ex_marshal_def
  CollectProofs_recv_def CollectProofs_timer_def CollectProofs_deferred_def
  participatingRollers_def

definition ex_session_7 :: session where
  "ex_session_7 = \<lparr>id_sess = 7, rollers = 1, roller_names = [(''pkB'', ''B'')], startTime = 3,
                    finishChan = 1\<rparr>"

definition ex_manager_two :: Manager where
  "ex_manager_two = ex_manager_running\<lparr>conns := [ex_idle, ex_busy],
     sessions := [(100, ex_session_100), (7, ex_session_7)],
     rollerMaps := [[(''pkC'', rollerAssigned)], [(''pkB'', rollerAssigned)]],
     chans := [[], []],
     goroutines := [(100, ex_session_100), (7, ex_session_7)]\<rparr>"

definition ex_manager_two_proved :: Manager where
  "ex_manager_two_proved = ex_manager_two\<lparr>rollerMaps :=
     [[(''pkC'', rollerProofValid)], [(''pkB'', rollerAssigned)]]\<rparr>"

lemmas ex_two_defs = ex_session_7_def ex_manager_two_def ex_manager_two_proved_def

section \<open>Properties\<close>

subsection \<open>Selecting a roller\<close>

lemma mset_drop_at:
  "idx < length allRollers \<Longrightarrow> mset (drop_at idx allRollers) = mset allRollers - {#allRollers ! idx#}"
proof (cases allRollers)
  case Nil
  then show ?thesis by (simp add: drop_at_def)
next
  case (Cons a list)
  assume idx: "idx < length allRollers"
  show ?thesis
  proof (cases idx)
    case 0
    then show ?thesis using Cons by (simp add: drop_at_def)
  next
    case (Suc j)
    then have j: "j < length list" using idx Cons by simp
    then have "list ! j \<in># mset list" by simp
    then show ?thesis using Cons Suc j
      by (simp add: drop_at_def mset_update)
  qed
qed

lemma set_drop_at: "set (drop_at idx allRollers) \<subseteq> set allRollers"
proof (cases allRollers)
  case Nil
  then show ?thesis by (simp add: drop_at_def)
next
  case (Cons a list)
  have "set (tl (allRollers[idx := hd allRollers])) \<subseteq> set (allRollers[idx := hd allRollers])"
    by (cases "allRollers[idx := hd allRollers]") auto
  also have "\<dots> \<subseteq> insert (hd allRollers) (set allRollers)"
    by (rule set_update_subset_insert)
  also have "\<dots> = set allRollers" using Cons by auto
  finally show ?thesis by (simp add: drop_at_def)
qed

lemma Intn_bound: "0 < n \<Longrightarrow> fst (Intn m n) < n"
  by (simp add: Intn_def split: list.splits)

lemma Intn_sessions: "sessions (snd (Intn m n)) = sessions m \<and> rollerMaps (snd (Intn m n)) = rollerMaps m"
  by (simp add: Intn_def split: list.splits)

lemma IsRollerIdle_cong:
  "sessions m' = sessions m \<Longrightarrow> rollerMaps m' = rollerMaps m \<Longrightarrow> IsRollerIdle m' pk = IsRollerIdle m pk"
  by (simp add: IsRollerIdle_def rollers_of_def)


lemma SelectRoller_body_frame:
  "SelectRoller_body m allRollers = Inl (conn, m1) \<Longrightarrow>
     sessions m1 = sessions m \<and> rollerMaps m1 = rollerMaps m"
  "SelectRoller_body m allRollers = Inr (m2, rest) \<Longrightarrow>
     sessions m2 = sessions m \<and> rollerMaps m2 = rollerMaps m"
  using Intn_sessions [of m "length allRollers"]
  by (auto simp: SelectRoller_body_def Let_def split: prod.splits if_splits)

lemma SelectRoller_body_unfold:
  "Intn m (length allRollers) = (idx, m0) \<Longrightarrow>
   SelectRoller_body m allRollers =
     (if isClosed (allRollers ! idx) then
        Inr (m0\<lparr>conns := removeAll (allRollers ! idx) (conns m0)\<rparr>, drop_at idx allRollers)
      else if \<not> IsRollerIdle m0 (PublicKey (allRollers ! idx)) then
        Inr (m0, drop_at idx allRollers)
      else Inl (allRollers ! idx, m0))"
  by (simp add: SelectRoller_body_def Let_def)

lemma SelectRoller_body_returns:
  assumes "allRollers \<noteq> []" and "SelectRoller_body m allRollers = Inl (conn, m1)"
  shows "conn \<in> set allRollers \<and> \<not> isClosed conn \<and> IsRollerIdle m (PublicKey conn)"
proof -
  obtain idx m0 where i: "Intn m (length allRollers) = (idx, m0)"
    by (cases "Intn m (length allRollers)")
  have idx: "idx < length allRollers"
    using Intn_bound [of "length allRollers" m] assms(1) i by simp
  have idle: "IsRollerIdle m0 (PublicKey conn) = IsRollerIdle m (PublicKey conn)"
    using Intn_sessions [of m "length allRollers"] i by (intro IsRollerIdle_cong) simp_all
  have "conn = allRollers ! idx \<and> \<not> isClosed conn \<and> IsRollerIdle m0 (PublicKey conn)"
    using assms(2) by (simp add: SelectRoller_body_unfold [OF i] split: if_splits)
  then show ?thesis using idx idle by auto
qed

lemma SelectRoller_body_continues:
  assumes "allRollers \<noteq> []" and "SelectRoller_body m allRollers = Inr (m1, rest)"
  shows "\<exists>idx<length allRollers. rest = drop_at idx allRollers \<and>
           (isClosed (allRollers ! idx) \<or> \<not> IsRollerIdle m (PublicKey (allRollers ! idx)))"
proof -
  obtain idx m0 where i: "Intn m (length allRollers) = (idx, m0)"
    by (cases "Intn m (length allRollers)")
  have idx: "idx < length allRollers"
    using Intn_bound [of "length allRollers" m] assms(1) i by simp
  have idle: "IsRollerIdle m0 (PublicKey (allRollers ! idx)) = IsRollerIdle m (PublicKey (allRollers ! idx))"
    using Intn_sessions [of m "length allRollers"] i by (intro IsRollerIdle_cong) simp_all
  have "rest = drop_at idx allRollers \<and>
        (isClosed (allRollers ! idx) \<or> \<not> IsRollerIdle m0 (PublicKey (allRollers ! idx)))"
    using assms(2) by (simp add: SelectRoller_body_unfold [OF i] split: if_splits)
  then show ?thesis using idx idle by auto
qed

lemma SelectRoller_iterations_le:
  "SelectRoller_iterations m allRollers \<le> length allRollers"
proof (induction m allRollers rule: SelectRoller_iterations.induct)
  case (1 m allRollers)
  show ?case
  proof (cases "allRollers = []")
    case True
    then show ?thesis by simp
  next
    case False
    show ?thesis
    proof (cases "SelectRoller_body m allRollers")
      case (Inl a)
      then show ?thesis using False by (cases a) (simp, cases allRollers, auto)
    next
      case (Inr b)
      obtain m1 rest where b: "b = (m1, rest)" by (cases b)
      have "SelectRoller_iterations m1 rest \<le> length rest"
        using "1.IH" False Inr b by simp
      moreover have "Suc (length rest) = length allRollers"
        using SelectRoller_body_shrinks False Inr b by simp
      ultimately show ?thesis using False Inr b by simp
    qed
  qed
qed

lemma SelectRoller_loop_result:
  "SelectRoller_loop m allRollers = (Some conn, m') \<Longrightarrow>
   conn \<in> set allRollers \<and> \<not> isClosed conn \<and> IsRollerIdle m (PublicKey conn)"
proof (induction m allRollers rule: SelectRoller_loop.induct)
  case (1 m allRollers)
  show ?case
  proof (cases "allRollers = []")
    case True
    then show ?thesis using "1.prems" by simp
  next
    case False
    show ?thesis
    proof (cases "SelectRoller_body m allRollers")
      case (Inl a)
      obtain c m1 where a: "a = (c, m1)" by (cases a)
      have "c = conn" using "1.prems" False Inl a by simp
      then show ?thesis using SelectRoller_body_returns [OF False] Inl a by simp
    next
      case (Inr b)
      obtain m1 rest where b: "b = (m1, rest)" by (cases b)
      have r: "SelectRoller_loop m1 rest = (Some conn, m')"
        using "1.prems" False Inr b by simp
      have ih: "conn \<in> set rest \<and> \<not> isClosed conn \<and> IsRollerIdle m1 (PublicKey conn)"
        using "1.IH" [OF False Inr b [symmetric] r] .
      obtain idx where "rest = drop_at idx allRollers"
        using SelectRoller_body_continues [OF False, of m m1 rest] Inr b by auto
      then have "set rest \<subseteq> set allRollers"
        using set_drop_at [of idx allRollers] by simp
      moreover have "IsRollerIdle m1 (PublicKey conn) = IsRollerIdle m (PublicKey conn)"
        using SelectRoller_body_frame(2) [of m allRollers m1 rest] Inr b
        by (intro IsRollerIdle_cong) simp_all
      ultimately show ?thesis using ih by auto
    qed
  qed
qed


text \<open>
  C10. \<open>SelectRoller\<close> terminates on every snapshot of the connection registry: the
  loop runs at most as many iterations as the snapshot has connections; an iteration
  on a non-empty slice either returns a connection that is not closed and whose
  identity is idle, or takes exactly one element out of the slice; and the loop
  returns nil or a connection of the snapshot that is not closed and is idle.
\<close>

theorem SelectRoller_terminates:
  "SelectRoller_iterations m allRollers \<le> length allRollers \<and>
   (allRollers \<noteq> [] \<longrightarrow>
      (case SelectRoller_body m allRollers of
         Inl (conn, m1) \<Rightarrow> \<not> isClosed conn \<and> IsRollerIdle m (PublicKey conn)
       | Inr (m1, rest) \<Rightarrow>
           \<exists>idx<length allRollers. mset rest = mset allRollers - {#allRollers ! idx#})) \<and>
   (case SelectRoller_loop m allRollers of
      (None, m') \<Rightarrow> True
    | (Some conn, m') \<Rightarrow>
        conn \<in> set allRollers \<and> \<not> isClosed conn \<and> IsRollerIdle m (PublicKey conn))"
proof (intro conjI impI)
  show "SelectRoller_iterations m allRollers \<le> length allRollers"
    by (rule SelectRoller_iterations_le)
next
  assume ne: "allRollers \<noteq> []"
  show "case SelectRoller_body m allRollers of
         Inl (conn, m1) \<Rightarrow> \<not> isClosed conn \<and> IsRollerIdle m (PublicKey conn)
       | Inr (m1, rest) \<Rightarrow>
           \<exists>idx<length allRollers. mset rest = mset allRollers - {#allRollers ! idx#}"
  proof (cases "SelectRoller_body m allRollers")
    case (Inl a)
    obtain conn m1 where "a = (conn, m1)" by (cases a)
    then show ?thesis using SelectRoller_body_returns [OF ne, of m conn m1] Inl by simp
  next
    case (Inr b)
    obtain m1 rest where b: "b = (m1, rest)" by (cases b)
    obtain idx where "idx < length allRollers" and "rest = drop_at idx allRollers"
      using SelectRoller_body_continues [OF ne, of m m1 rest] Inr b by auto
    then have "idx < length allRollers \<and> mset rest = mset allRollers - {#allRollers ! idx#}"
      by (simp add: mset_drop_at)
    then show ?thesis using Inr b by auto
  qed
next
  show "case SelectRoller_loop m allRollers of
      (None, m') \<Rightarrow> True
    | (Some conn, m') \<Rightarrow>
        conn \<in> set allRollers \<and> \<not> isClosed conn \<and> IsRollerIdle m (PublicKey conn)"
  proof (cases "SelectRoller_loop m allRollers")
    case (Pair r m')
    show ?thesis
    proof (cases r)
      case None
      then show ?thesis using Pair by simp
    next
      case (Some conn)
      then show ?thesis using SelectRoller_loop_result [of m allRollers conn m'] Pair by simp
    qed
  qed
qed


theorem SelectRoller_terminates_witness:
  "SelectRoller_iterations ex_manager (conns ex_manager) = 3 \<and>
   fst (SelectRoller ex_manager) = Some ex_idle \<and>
   conns (snd (SelectRoller ex_manager)) = [ex_busy, ex_idle] \<and>
   \<not> isClosed ex_idle \<and> IsRollerIdle ex_manager (PublicKey ex_idle)"
  using SelectRoller_terminates [of ex_manager "conns ex_manager"]
  by (simp add: SelectRoller_def ex_manager_def ex_closed_def ex_busy_def ex_idle_def ex_session_def
      SelectRoller_body_def Intn_def isClosed_def IsRollerIdle_def rollers_of_def drop_at_def Let_def)

lemma Intn_same: "same_sessions (snd (Intn m n)) m"
  by (cases "rand_src m") (simp_all add: Intn_def same_sessions_def)

lemma SelectRoller_body_same:
  "SelectRoller_body m allRollers = Inl (conn, m1) \<Longrightarrow> same_sessions m1 m"
  "SelectRoller_body m allRollers = Inr (m2, rest) \<Longrightarrow> same_sessions m2 m"
proof -
  obtain idx m0 where i: "Intn m (length allRollers) = (idx, m0)"
    by (cases "Intn m (length allRollers)")
  have s: "same_sessions m0 m"
    using Intn_same [of m "length allRollers"] i by simp
  show "SelectRoller_body m allRollers = Inl (conn, m1) \<Longrightarrow> same_sessions m1 m"
    using s by (simp add: SelectRoller_body_unfold [OF i] split: if_splits)
  show "SelectRoller_body m allRollers = Inr (m2, rest) \<Longrightarrow> same_sessions m2 m"
    using s by (auto simp: SelectRoller_body_unfold [OF i] same_sessions_def split: if_splits)
qed

lemma same_sessions_trans: "same_sessions m2 m1 \<Longrightarrow> same_sessions m1 m \<Longrightarrow> same_sessions m2 m"
  by (simp add: same_sessions_def)

lemma SelectRoller_loop_same:
  "SelectRoller_loop m allRollers = (r, m') \<Longrightarrow> same_sessions m' m"
proof (induction m allRollers rule: SelectRoller_loop.induct)
  case (1 m allRollers)
  show ?case
  proof (cases "allRollers = []")
    case True
    then show ?thesis using "1.prems" by (simp add: same_sessions_def)
  next
    case False
    show ?thesis
    proof (cases "SelectRoller_body m allRollers")
      case (Inl a)
      obtain c m1 where a: "a = (c, m1)" by (cases a)
      have "m1 = m'" using "1.prems" False Inl a by simp
      then show ?thesis using SelectRoller_body_same(1) [of m allRollers c m1] Inl a by simp
    next
      case (Inr b)
      obtain m1 rest where b: "b = (m1, rest)" by (cases b)
      have r: "SelectRoller_loop m1 rest = (r, m')"
        using "1.prems" False Inr b by simp
      have ih: "same_sessions m' m1"
        using "1.IH" [OF False Inr b [symmetric] r] .
      have "same_sessions m1 m"
        using SelectRoller_body_same(2) [of m allRollers m1 rest] Inr b by simp
      then show ?thesis using ih same_sessions_trans by blast
    qed
  qed
qed

lemma SelectRoller_only_conns:
  assumes "SelectRoller m = (r, m1)"
  shows "sent m1 = sent m \<and> sessions m1 = sessions m \<and>
         failedSessionInfos m1 = failedSessionInfos m \<and> rollerMaps m1 = rollerMaps m \<and>
         chans m1 = chans m \<and> verifier m1 = verifier m \<and> orm m1 = orm m \<and>
         goroutines m1 = goroutines m \<and> OrderSession m1 = OrderSession m"
  using assms SelectRoller_loop_same [of m "conns m" r m1]
  by (simp add: SelectRoller_def same_sessions_def)

lemma SelectRoller_open:
  assumes "SelectRoller m = (Some roller, m1)"
  shows "\<not> isClosed roller"
  using assms SelectRoller_loop_result [of m "conns m" roller m1] by (simp add: SelectRoller_def)

subsection \<open>Starting a session\<close>

lemma UpdateBlockStatus_fails:
  "faults db = Some e # fs \<Longrightarrow>
   UpdateBlockStatus db n st =
     (Some e, db\<lparr>faults := fs, calls := calls db @ [(CallUpdateBlockStatus n st, False)]\<rparr>)"
  by (simp add: UpdateBlockStatus_def next_fault_def record_call_def)

lemma UpdateBlockStatus_calls:
  "calls (snd (UpdateBlockStatus db n st)) = calls db @ [(CallUpdateBlockStatus n st, next_ok db)]"
  by (simp add: UpdateBlockStatus_def next_fault_def record_call_def next_ok_def
      split: list.splits option.splits)

text \<open>
  C9. When the frame cannot be serialized, or sending it to the selected prover fails,
  \<open>StartProofGenerationSession\<close> returns false; the task store, the session table,
  the maps and channels of the sessions, the failed session records and the started
  collectors are as before the call.
\<close>

theorem StartProofGenerationSession_send_failure:
  assumes "SelectRoller m = (Some roller, m1)"
    and "(\<exists>err. createBlockTracesMsg jsonMarshal trace = Inl err) \<or>
         (\<exists>msg err. createBlockTracesMsg jsonMarshal trace = Inr msg \<and>
                    sendMessage roller msg = Some err)"
  shows "StartProofGenerationSession jsonMarshal now m trace = Returned False m1 \<and>
         orm m1 = orm m \<and> sessions m1 = sessions m \<and> rollerMaps m1 = rollerMaps m \<and>
         chans m1 = chans m \<and> failedSessionInfos m1 = failedSessionInfos m \<and>
         goroutines m1 = goroutines m \<and> sent m1 = sent m"
proof -
  have "StartProofGenerationSession jsonMarshal now m trace = Returned False m1"
    using assms by (auto simp: StartProofGenerationSession_def Let_def)
  then show ?thesis using SelectRoller_only_conns [OF assms(1)] by simp
qed

theorem StartProofGenerationSession_send_failure_witness:
  "SelectRoller ex_manager_deaf = (Some ex_deaf, ex_manager_deaf\<lparr>rand_src := [0, 0]\<rparr>) \<and>
   createBlockTracesMsg ex_marshal ex_trace = Inr \<lparr>Type = MsgBlockTrace, Payload = ''frame''\<rparr> \<and>
   sendMessage ex_deaf \<lparr>Type = MsgBlockTrace, Payload = ''frame''\<rparr> = Some ''send failed'' \<and>
   StartProofGenerationSession ex_marshal 5 ex_manager_deaf ex_trace
     = Returned False (ex_manager_deaf\<lparr>rand_src := [0, 0]\<rparr>) \<and>
   orm (ex_manager_deaf\<lparr>rand_src := [0, 0]\<rparr>) = Some ex_db \<and>
   sessions (ex_manager_deaf\<lparr>rand_src := [0, 0]\<rparr>) = [(7, ex_session)]"
proof -
  have sel: "SelectRoller ex_manager_deaf = (Some ex_deaf, ex_manager_deaf\<lparr>rand_src := [0, 0]\<rparr>)"
    by (simp add: SelectRoller_def ex_manager_deaf_def ex_manager_def ex_deaf_def ex_session_def
        SelectRoller_body_def Intn_def isClosed_def IsRollerIdle_def rollers_of_def Let_def)
  have msg: "createBlockTracesMsg ex_marshal ex_trace = Inr \<lparr>Type = MsgBlockTrace, Payload = ''frame''\<rparr>"
    by (simp add: createBlockTracesMsg_def ex_marshal_def Let_def)
  have snd: "sendMessage ex_deaf \<lparr>Type = MsgBlockTrace, Payload = ''frame''\<rparr> = Some ''send failed''"
    by (simp add: sendMessage_def ex_deaf_def)
  show ?thesis
    using StartProofGenerationSession_send_failure [of ex_manager_deaf ex_deaf _ ex_marshal ex_trace 5, OF sel]
      sel msg snd
    by (simp add: ex_manager_deaf_def ex_manager_def)
qed


text \<open>
  C1, as the code has it. When the update that sets the status to \<open>BlockAssigned\<close>
  fails, \<open>StartProofGenerationSession\<close> issues the reset of the status to
  \<open>BlockUnassigned\<close>, but it does not remove the session it has just inserted: the
  session stays in the session table with its participant assigned, the collector is
  started, and the call returns true.
\<close>

theorem StartProofGenerationSession_keeps_session:
  assumes "SelectRoller m = (Some roller, m1)"
    and "createBlockTracesMsg jsonMarshal trace = Inr msg"
    and "sendMessage roller msg = None"
    and "orm m = Some db"
    and "faults db = Some e # fs"
  shows "\<exists>m' s db'. StartProofGenerationSession jsonMarshal now m trace = Returned True m' \<and>
           map_of (sessions m') (Uint64 (Number trace)) = Some s \<and>
           id_sess s = Uint64 (Number trace) \<and>
           rollers_of m' s = [(PublicKey roller, rollerAssigned)] \<and>
           (Uint64 (Number trace), s) \<in> set (goroutines m') \<and>
           orm m' = Some db' \<and>
           calls db' = calls db @
             [(CallUpdateBlockStatus (Uint64 (Number trace)) BlockAssigned, False),
              (CallUpdateBlockStatus (Uint64 (Number trace)) BlockUnassigned,
                 next_ok (db\<lparr>faults := fs\<rparr>))]"
proof -
  have open_roller: "\<not> isClosed roller" using SelectRoller_open [OF assms(1)] .
  have orm1: "orm m1 = Some db" using SelectRoller_only_conns [OF assms(1)] assms(4) by simp
  show ?thesis
    using assms(1,2,3,5) open_roller orm1
    by (simp add: StartProofGenerationSession_def Let_def UpdateBlockStatus_fails
        UpdateBlockStatus_calls update_conv rollers_of_def next_ok_def)
qed



text \<open>
  C1, as stated, fails: the store refuses the update to \<open>BlockAssigned\<close> of task 100,
  the reset to \<open>BlockUnassigned\<close> is issued, and the session 100 is still in the
  session table after the call.
\<close>

theorem StartProofGenerationSession_keeps_session_counterexample:
  "faults ex_db_failing = [Some ''db down''] \<and>
   StartProofGenerationSession ex_marshal 5 ex_manager_one ex_trace =
     Returned True (state_of (StartProofGenerationSession ex_marshal 5 ex_manager_one ex_trace)) \<and>
   map_of (sessions (state_of (StartProofGenerationSession ex_marshal 5 ex_manager_one ex_trace))) 100
     = Some \<lparr>id_sess = 100, rollers = 1, roller_names = [(''pkC'', ''C'')], startTime = 5,
             finishChan = 1\<rparr> \<and>
   map_option calls (orm (state_of (StartProofGenerationSession ex_marshal 5 ex_manager_one ex_trace)))
     = Some [(CallUpdateBlockStatus 100 BlockAssigned, False),
             (CallUpdateBlockStatus 100 BlockUnassigned, True)]"
  by (simp add: ex_defs store_defs select_defs start_defs Let_def)

theorem StartProofGenerationSession_keeps_session_witness:
  "SelectRoller ex_manager_one = (Some ex_idle, ex_manager_one\<lparr>rand_src := [0, 0]\<rparr>) \<and>
   createBlockTracesMsg ex_marshal ex_trace = Inr \<lparr>Type = MsgBlockTrace, Payload = ''frame''\<rparr> \<and>
   sendMessage ex_idle \<lparr>Type = MsgBlockTrace, Payload = ''frame''\<rparr> = None \<and>
   orm ex_manager_one = Some ex_db_failing \<and>
   faults ex_db_failing = [Some ''db down''] \<and>
   (\<exists>m' s db'. StartProofGenerationSession ex_marshal 5 ex_manager_one ex_trace = Returned True m' \<and>
      map_of (sessions m') 100 = Some s \<and> id_sess s = 100 \<and>
      rollers_of m' s = [(''pkC'', rollerAssigned)] \<and>
      (100, s) \<in> set (goroutines m') \<and> orm m' = Some db' \<and>
      calls db' = [(CallUpdateBlockStatus 100 BlockAssigned, False),
                   (CallUpdateBlockStatus 100 BlockUnassigned, True)])"
proof -
  have sel: "SelectRoller ex_manager_one = (Some ex_idle, ex_manager_one\<lparr>rand_src := [0, 0]\<rparr>)"
    by (simp add: ex_defs select_defs Let_def)
  have msg: "createBlockTracesMsg ex_marshal ex_trace = Inr \<lparr>Type = MsgBlockTrace, Payload = ''frame''\<rparr>"
    by (simp add: createBlockTracesMsg_def ex_marshal_def Let_def)
  have snd: "sendMessage ex_idle \<lparr>Type = MsgBlockTrace, Payload = ''frame''\<rparr> = None"
    by (simp add: sendMessage_def ex_idle_def)
  have db: "orm ex_manager_one = Some ex_db_failing"
    by (simp add: ex_manager_one_def)
  have flt: "faults ex_db_failing = [Some ''db down'']"
    by (simp add: ex_db_failing_def)
  have n: "Uint64 (Number ex_trace) = 100" "PublicKey ex_idle = ''pkC''"
    "calls ex_db_failing = []" "next_ok (ex_db_failing\<lparr>faults := []\<rparr>)"
    by (simp_all add: Uint64_def ex_trace_def ex_idle_def ex_db_failing_def ex_db_def next_ok_def)
  show ?thesis
    using StartProofGenerationSession_keeps_session [OF sel msg snd db flt, of 5]
      sel msg snd db flt
    by (simp add: n)
qed

subsection \<open>The dispatcher\<close>

lemma GetBlockResults_status_limit0:
  "\<exists>err db'. GetBlockResults_status db st ord 0 = (([], err), db') \<and>
      rows db' = rows db \<and>
      calls db' = calls db @ [(CallGetByStatus st ord 0, err = None)]"
proof (cases "faults db")
  case Nil
  then show ?thesis
    by (simp add: GetBlockResults_status_def next_fault_def record_call_def Let_def)
next
  case (Cons f fs)
  then show ?thesis
    by (cases f) (simp_all add: GetBlockResults_status_def next_fault_def record_call_def Let_def)
qed

lemma Loop_tick_limit0:
  assumes "orm m = Some db" and "GetNumberOfIdleRollers m = 0"
    and "GetBlockResults_status db BlockUnassigned (OrderSession m) 0 = (([], err), db')"
  shows "Loop_tick jsonMarshal now m [] = Returned [] (m\<lparr>orm := Some db'\<rparr>)"
  using assms by (simp add: Loop_tick_def Let_def)

text \<open>
  C2, as the code has it. On a tick with an empty buffer and no idle roller, the
  dispatcher still queries the task store when one is configured: exactly one query
  for unassigned tasks, with limit 0. The query changes no row and returns no task, so
  the buffer stays empty and no session is started. Without a task store the tick does
  nothing.
\<close>

theorem Loop_tick_no_idle_rollers:
  assumes "GetNumberOfIdleRollers m = 0"
  shows "(case orm m of
            None \<Rightarrow> Loop_tick jsonMarshal now m [] = Returned [] m
          | Some db \<Rightarrow>
              (\<exists>db' ok. Loop_tick jsonMarshal now m [] = Returned [] (m\<lparr>orm := Some db'\<rparr>) \<and>
                 rows db' = rows db \<and>
                 calls db' = calls db @ [(CallGetByStatus BlockUnassigned (OrderSession m) 0, ok)]))"
proof (cases "orm m")
  case None
  then show ?thesis by (simp add: Loop_tick_def)
next
  case (Some db)
  obtain err db' where q: "GetBlockResults_status db BlockUnassigned (OrderSession m) 0 = (([], err), db')"
    and r: "rows db' = rows db"
    and c: "calls db' = calls db @ [(CallGetByStatus BlockUnassigned (OrderSession m) 0, err = None)]"
    using GetBlockResults_status_limit0 [of db BlockUnassigned "OrderSession m"] by blast
  have "Loop_tick jsonMarshal now m [] = Returned [] (m\<lparr>orm := Some db'\<rparr>)"
    using Loop_tick_limit0 [OF Some assms q] .
  then have "\<exists>db' ok. Loop_tick jsonMarshal now m [] = Returned [] (m\<lparr>orm := Some db'\<rparr>) \<and>
                 rows db' = rows db \<and>
                 calls db' = calls db @ [(CallGetByStatus BlockUnassigned (OrderSession m) 0, ok)]"
    using r c by blast
  then show ?thesis using Some by simp
qed

lemma ex_none_idle: "GetNumberOfIdleRollers ex_manager_none = 0"
  by (simp add: ex_manager_none_def ex_defs select_defs GetNumberOfIdleRollers_def)

text \<open>
  C2, as stated, fails: with one busy roller and an empty buffer the tick issues the
  query \<open>ORDER BY number ASC LIMIT 0\<close> to the task store.
\<close>

theorem Loop_tick_no_idle_rollers_counterexample:
  "GetNumberOfIdleRollers ex_manager_none = 0 \<and>
   map_option calls (orm ex_manager_none) = Some [] \<and>
   Loop_tick ex_marshal 5 ex_manager_none [] =
     Returned [] (state_of (Loop_tick ex_marshal 5 ex_manager_none [])) \<and>
   map_option calls (orm (state_of (Loop_tick ex_marshal 5 ex_manager_none [])))
     = Some [(CallGetByStatus BlockUnassigned ''ASC'' 0, True)]"
proof -
  have q: "GetBlockResults_status ex_db BlockUnassigned ''ASC'' 0 =
        (([], None), ex_db\<lparr>calls := [(CallGetByStatus BlockUnassigned ''ASC'' 0, True)]\<rparr>)"
    by (simp add: ex_db_def store_defs)
  have o: "orm ex_manager_none = Some ex_db" "OrderSession ex_manager_none = ''ASC''"
    by (simp_all add: ex_manager_none_def ex_manager_def)
  have "Loop_tick ex_marshal 5 ex_manager_none [] =
     Returned [] (ex_manager_none\<lparr>orm := Some (ex_db\<lparr>calls := [(CallGetByStatus BlockUnassigned ''ASC'' 0, True)]\<rparr>)\<rparr>)"
    using Loop_tick_limit0 [of ex_manager_none ex_db None _ ex_marshal 5] o q ex_none_idle by simp
  then show ?thesis using ex_none_idle o by (simp add: ex_db_def)
qed

theorem Loop_tick_no_idle_rollers_witness:
  "GetNumberOfIdleRollers ex_manager_none = 0 \<and>
   (\<exists>db' ok. Loop_tick ex_marshal 5 ex_manager_none [] = Returned [] (ex_manager_none\<lparr>orm := Some db'\<rparr>) \<and>
      rows db' = rows ex_db \<and>
      calls db' = [(CallGetByStatus BlockUnassigned ''ASC'' 0, ok)])"
proof -
  have o: "orm ex_manager_none = Some ex_db" "calls ex_db = []" "OrderSession ex_manager_none = ''ASC''"
    by (simp_all add: ex_manager_none_def ex_manager_def ex_db_def)
  show ?thesis
    using Loop_tick_no_idle_rollers [OF ex_none_idle, of ex_marshal 5] ex_none_idle o by simp
qed

subsection \<open>The deadline of a session\<close>

lemma UpdateBlockStatus_status:
  "next_ok db \<Longrightarrow>
   status_of (snd (UpdateBlockStatus db n st)) n = map_option (\<lambda>_. st) (status_of db n)"
  by (cases "faults db")
     (auto simp: UpdateBlockStatus_def next_fault_def record_call_def next_ok_def status_of_def
        map_of_map_entry split: option.splits)

lemma map_of_delete_same: "map_of (AList.delete k xs) k = None"
  by (simp add: delete_conv)

lemma UpdateBlockStatus_other_status:
  "k \<noteq> n \<Longrightarrow> status_of (snd (UpdateBlockStatus db n st)) k = status_of db k"
  by (cases "faults db")
     (auto simp: UpdateBlockStatus_def next_fault_def record_call_def status_of_def
        map_of_map_entry split: option.splits)

lemma CollectProofs_deferred_sessions:
  "sessions (CollectProofs_deferred m n s) = AList.delete n (sessions m) \<and>
   map_of (sessions (CollectProofs_deferred m n s)) n = None \<and>
   (\<forall>k. k \<noteq> n \<longrightarrow>
      map_of (sessions (CollectProofs_deferred m n s)) k = map_of (sessions m) k)"
  by (simp add: CollectProofs_deferred_def delete_conv)

text \<open>
  C7. When the timer of \<open>CollectProofs\<close> fires and no participant has status
  \<open>rollerProofValid\<close>, the session is deleted from the session table (the entry of
  its id is removed and every other entry is kept), a failed session record with the
  message "proof generation session ended without receiving any valid proofs" is
  stored under the id of the session (the other records are kept), and the update of
  the task to \<open>BlockFailed\<close> is issued: the task has that status afterwards when the
  store accepts the update, and no other task changes. When some participant has a
  valid proof, the session is deleted in the same way and neither the task store nor
  the failed session records change.
\<close>

theorem CollectProofs_timer_finalizes:
  assumes "orm m = Some db"
  shows "(participatingRollers m s = [] \<longrightarrow>
            (\<exists>m' db'. CollectProofs_timer m n s = Returned () m' \<and>
               sessions m' = AList.delete n (sessions m) \<and>
               map_of (sessions m') n = None \<and>
               (\<forall>k. k \<noteq> n \<longrightarrow> map_of (sessions m') k = map_of (sessions m) k) \<and>
               map_option info_error (map_of (failedSessionInfos m') (id_sess s))
                 = Some ''proof generation session ended without receiving any valid proofs'' \<and>
               (\<forall>k. k \<noteq> id_sess s \<longrightarrow>
                  map_of (failedSessionInfos m') k = map_of (failedSessionInfos m) k) \<and>
               orm m' = Some db' \<and>
               calls db' = calls db @ [(CallUpdateBlockStatus n BlockFailed, next_ok db)] \<and>
               (if next_ok db then status_of db' n = map_option (\<lambda>_. BlockFailed) (status_of db n)
                else rows db' = rows db) \<and>
               (\<forall>k. k \<noteq> n \<longrightarrow> status_of db' k = status_of db k))) \<and>
         (participatingRollers m s \<noteq> [] \<longrightarrow>
            (\<exists>m'. CollectProofs_timer m n s = Returned () m' \<and>
               sessions m' = AList.delete n (sessions m) \<and>
               map_of (sessions m') n = None \<and>
               (\<forall>k. k \<noteq> n \<longrightarrow> map_of (sessions m') k = map_of (sessions m) k) \<and>
               orm m' = orm m \<and>
               failedSessionInfos m' = failedSessionInfos m))"
proof (intro conjI impI)
  assume e: "participatingRollers m s = []"
  obtain err db1 where u: "UpdateBlockStatus db n BlockFailed = (err, db1)"
    by (cases "UpdateBlockStatus db n BlockFailed")
  have c: "calls db1 = calls db @ [(CallUpdateBlockStatus n BlockFailed, next_ok db)]"
    using UpdateBlockStatus_calls [of db n BlockFailed] u by simp
  have st: "if next_ok db then status_of db1 n = map_option (\<lambda>_. BlockFailed) (status_of db n)
            else rows db1 = rows db"
  proof (cases "next_ok db")
    case True
    then show ?thesis using UpdateBlockStatus_status [of db n BlockFailed] u by simp
  next
    case False
    then obtain e0 fs where "faults db = Some e0 # fs"
      by (auto simp: next_ok_def split: list.splits)
    then have "db1 = db\<lparr>faults := fs,
        calls := calls db @ [(CallUpdateBlockStatus n BlockFailed, False)]\<rparr>"
      using u by (simp add: UpdateBlockStatus_fails)
    then show ?thesis using False by simp
  qed
  have other: "\<forall>k. k \<noteq> n \<longrightarrow> status_of db1 k = status_of db k"
    using UpdateBlockStatus_other_status [of _ n db BlockFailed] u by simp
  define m1 where "m1 = (addFailedSession m s errMsg_no_valid_proofs)\<lparr>orm := Some db1\<rparr>"
  have r: "CollectProofs_timer m n s = Returned () (CollectProofs_deferred m1 n s)"
    using e assms u
    by (simp add: CollectProofs_timer_def addFailedSession_def Let_def m1_def)
  have s1: "sessions m1 = sessions m" "orm m1 = Some db1"
    by (simp_all add: m1_def addFailedSession_def)
  have f1: "map_option info_error (map_of (failedSessionInfos m1) (id_sess s))
              = Some ''proof generation session ended without receiving any valid proofs''"
    "\<forall>k. k \<noteq> id_sess s \<longrightarrow> map_of (failedSessionInfos m1) k = map_of (failedSessionInfos m) k"
    by (simp_all add: m1_def addFailedSession_def update_conv errMsg_no_valid_proofs_def)
  have d: "failedSessionInfos (CollectProofs_deferred m1 n s) = failedSessionInfos m1"
    "orm (CollectProofs_deferred m1 n s) = orm m1"
    by (simp_all add: CollectProofs_deferred_def)
  show "\<exists>m' db'. CollectProofs_timer m n s = Returned () m' \<and>
               sessions m' = AList.delete n (sessions m) \<and>
               map_of (sessions m') n = None \<and>
               (\<forall>k. k \<noteq> n \<longrightarrow> map_of (sessions m') k = map_of (sessions m) k) \<and>
               map_option info_error (map_of (failedSessionInfos m') (id_sess s))
                 = Some ''proof generation session ended without receiving any valid proofs'' \<and>
               (\<forall>k. k \<noteq> id_sess s \<longrightarrow>
                  map_of (failedSessionInfos m') k = map_of (failedSessionInfos m) k) \<and>
               orm m' = Some db' \<and>
               calls db' = calls db @ [(CallUpdateBlockStatus n BlockFailed, next_ok db)] \<and>
               (if next_ok db then status_of db' n = map_option (\<lambda>_. BlockFailed) (status_of db n)
                else rows db' = rows db) \<and>
               (\<forall>k. k \<noteq> n \<longrightarrow> status_of db' k = status_of db k)"
    using CollectProofs_deferred_sessions [of m1 n s] s1 f1 d c st other
    by (intro exI [of _ "CollectProofs_deferred m1 n s"] exI [of _ db1])
       (simp add: r delete_conv)
next
  assume ne: "participatingRollers m s \<noteq> []"
  obtain idx m1 where i: "Intn m (length (participatingRollers m s)) = (idx, m1)"
    by (cases "Intn m (length (participatingRollers m s))")
  have s: "same_sessions m1 m"
    using Intn_same [of m "length (participatingRollers m s)"] i by simp
  have r: "CollectProofs_timer m n s = Returned () (CollectProofs_deferred m1 n s)"
    using ne i by (simp add: CollectProofs_timer_def Let_def)
  have d: "failedSessionInfos (CollectProofs_deferred m1 n s) = failedSessionInfos m"
    "orm (CollectProofs_deferred m1 n s) = orm m" "sessions m1 = sessions m"
    using s by (simp_all add: CollectProofs_deferred_def same_sessions_def)
  show "\<exists>m'. CollectProofs_timer m n s = Returned () m' \<and>
               sessions m' = AList.delete n (sessions m) \<and>
               map_of (sessions m') n = None \<and>
               (\<forall>k. k \<noteq> n \<longrightarrow> map_of (sessions m') k = map_of (sessions m) k) \<and>
               orm m' = orm m \<and>
               failedSessionInfos m' = failedSessionInfos m"
    using CollectProofs_deferred_sessions [of m1 n s] d
    by (intro exI [of _ "CollectProofs_deferred m1 n s"]) (simp add: r delete_conv)
qed

theorem CollectProofs_timer_finalizes_witness:
  "orm ex_manager_two = Some ex_db_assigned \<and>
   participatingRollers ex_manager_two ex_session_100 = [] \<and>
   (\<exists>m' db'. CollectProofs_timer ex_manager_two 100 ex_session_100 = Returned () m' \<and>
      sessions m' = [(7, ex_session_7)] \<and>
      map_of (sessions m') 100 = None \<and>
      map_of (sessions m') 7 = Some ex_session_7 \<and>
      map_option info_error (map_of (failedSessionInfos m') 100)
        = Some ''proof generation session ended without receiving any valid proofs'' \<and>
      orm m' = Some db' \<and>
      calls db' = [(CallUpdateBlockStatus 100 BlockFailed, True)] \<and>
      status_of db' 100 = Some BlockFailed) \<and>
   orm ex_manager_two_proved = Some ex_db_assigned \<and>
   participatingRollers ex_manager_two_proved ex_session_100 = [''pkC''] \<and>
   (\<exists>m'. CollectProofs_timer ex_manager_two_proved 100 ex_session_100 = Returned () m' \<and>
      sessions m' = [(7, ex_session_7)] \<and>
      map_of (sessions m') 100 = None \<and>
      map_of (sessions m') 7 = Some ex_session_7 \<and>
      orm m' = Some ex_db_assigned \<and>
      failedSessionInfos m' = [])"
proof -
  have a: "orm ex_manager_two = Some ex_db_assigned"
    "orm ex_manager_two_proved = Some ex_db_assigned"
    by (simp_all add: ex_two_defs ex_running_defs)
  have b: "participatingRollers ex_manager_two ex_session_100 = []"
    "participatingRollers ex_manager_two_proved ex_session_100 = [''pkC'']"
    by (simp_all add: ex_two_defs ex_running_defs participatingRollers_def rollers_of_def)
  have c: "next_ok ex_db_assigned" "calls ex_db_assigned = []"
    "status_of ex_db_assigned 100 = Some BlockAssigned" "id_sess ex_session_100 = 100"
    "failedSessionInfos ex_manager_two_proved = []"
    "AList.delete 100 (sessions ex_manager_two) = [(7, ex_session_7)]"
    "AList.delete 100 (sessions ex_manager_two_proved) = [(7, ex_session_7)]"
    by (simp_all add: ex_two_defs ex_running_defs next_ok_def status_of_def)
  have 1: "\<exists>m' db'. CollectProofs_timer ex_manager_two 100 ex_session_100 = Returned () m' \<and>
      sessions m' = [(7, ex_session_7)] \<and>
      map_of (sessions m') 100 = None \<and>
      map_of (sessions m') 7 = Some ex_session_7 \<and>
      map_option info_error (map_of (failedSessionInfos m') 100)
        = Some ''proof generation session ended without receiving any valid proofs'' \<and>
      orm m' = Some db' \<and>
      calls db' = [(CallUpdateBlockStatus 100 BlockFailed, True)] \<and>
      status_of db' 100 = Some BlockFailed"
    using CollectProofs_timer_finalizes [OF a(1), of ex_session_100 100] b c
    by auto
  have 2: "\<exists>m'. CollectProofs_timer ex_manager_two_proved 100 ex_session_100 = Returned () m' \<and>
      sessions m' = [(7, ex_session_7)] \<and>
      map_of (sessions m') 100 = None \<and>
      map_of (sessions m') 7 = Some ex_session_7 \<and>
      orm m' = Some ex_db_assigned \<and>
      failedSessionInfos m' = []"
    using CollectProofs_timer_finalizes [OF a(2), of ex_session_100 100] a b c
    by auto
  show ?thesis using a b 1 2 by blast
qed

subsection \<open>Handling a proof\<close>

lemma status_writes_append:
  "status_writes n (xs @ ys) = status_writes n xs @ status_writes n ys"
  by (induction n xs rule: status_writes.induct) simp_all

lemma UpdateBlockStatus_ok:
  "faults db = [] \<Longrightarrow>
   UpdateBlockStatus db n st =
     (None, db\<lparr>rows := AList.map_entry n (\<lambda>r. r\<lparr>status := st\<rparr>) (rows db),
               calls := calls db @ [(CallUpdateBlockStatus n st, True)]\<rparr>)"
  by (simp add: UpdateBlockStatus_def next_fault_def record_call_def)

lemma UpdateProofByNumber_ok:
  "faults db = [] \<Longrightarrow>
   UpdateProofByNumber db n p fp secs =
     (None, db\<lparr>rows := AList.map_entry n
                 (\<lambda>r. r\<lparr>row_proof := Some p, final_pair := Some fp, proof_time_sec := Some secs\<rparr>)
                 (rows db),
               calls := calls db @ [(CallUpdateProofByNumber n, True)]\<rparr>)"
  by (simp add: UpdateProofByNumber_def next_fault_def record_call_def)

lemma GetBlockResults_number_ok:
  "faults db = [] \<Longrightarrow>
   GetBlockResults_number db n =
     ((map (\<lambda>(k, r). block r) (filter (\<lambda>(k, r). k = n) (rows db)), None),
      db\<lparr>calls := calls db @ [(CallGetByNumber n, True)]\<rparr>)"
  by (simp add: GetBlockResults_number_def next_fault_def record_call_def)

lemma filter_key_hd:
  "map_of xs n = Some r \<Longrightarrow> \<exists>rest. filter (\<lambda>(k, r). k = n) xs = (n, r) # rest"
  by (induction xs) (auto split: if_splits)

lemma HandleZkProof_deferred_ok:
  assumes "finishChan s < length (chans m)"
    and "length (chans m ! finishChan s) < proofAndPkBufferSize"
  shows "HandleZkProof_deferred m db s pk n None success ret =
     Returned ret (m\<lparr>orm := Some db,
       chans := (chans m)[finishChan s := chans m ! finishChan s @
         [(pk, if success then rollerProofValid else rollerProofInvalid)]]\<rparr>)"
  using assms by (simp add: HandleZkProof_deferred_def chan_send_def Let_def)

lemma HandleZkProof_final_ok:
  assumes "finishChan s < length (chans m)"
    and "length (chans m ! finishChan s) < proofAndPkBufferSize"
    and "faults db = []"
  shows "HandleZkProof_final m db s pk n success =
     Returned None (m\<lparr>orm := Some (db\<lparr>rows := AList.map_entry n
           (\<lambda>r. r\<lparr>status := if success then BlockVerified else BlockFailed\<rparr>) (rows db),
         calls := calls db @
           [(CallUpdateBlockStatus n (if success then BlockVerified else BlockFailed), True)]\<rparr>),
       chans := (chans m)[finishChan s := chans m ! finishChan s @
         [(pk, if success then rollerProofValid else rollerProofInvalid)]]\<rparr>)"
  using assms
  by (simp add: HandleZkProof_final_def UpdateBlockStatus_ok HandleZkProof_deferred_ok Let_def)


lemma HandleZkProof_reaches_verifier:
  assumes sess: "map_of (sessions m) (ID msg) = Some s"
    and part: "map_of (rollers_of m s) pk = Some st" "st \<noteq> rollerProofValid"
    and ok: "Status msg = StatusOk"
    and db: "orm m = Some db" "faults db = []"
    and v: "verifier m = Some v"
    and row: "map_of (rows db) (ID msg) = Some row"
  shows "\<exists>db3. faults db3 = [] \<and>
           calls db3 = calls db @ [(CallUpdateProofByNumber (ID msg), True),
                                  (CallUpdateBlockStatus (ID msg) BlockProved, True),
                                  (CallGetByNumber (ID msg), True)] \<and>
           status_of db3 (ID msg) = Some BlockProved \<and>
           HandleZkProof m now pk (Inr msg) =
             (case v (block row) (msg_Proof msg) of
                (success, Some verr) \<Rightarrow>
                  HandleZkProof_final (addFailedSession m s verr) db3 s pk (ID msg) False
              | (success, None) \<Rightarrow> HandleZkProof_final m db3 s pk (ID msg) success)"
proof -
  define secs :: uint64 where "secs = word_of_nat (now - startTime s)"
  define db1 where "db1 = db\<lparr>rows := AList.map_entry (ID msg)
      (\<lambda>r. r\<lparr>row_proof := Some (Proof (msg_Proof msg)),
              final_pair := Some (FinalPair (msg_Proof msg)), proof_time_sec := Some secs\<rparr>)
      (rows db),
    calls := calls db @ [(CallUpdateProofByNumber (ID msg), True)]\<rparr>"
  define db2 where "db2 = db1\<lparr>rows := AList.map_entry (ID msg) (\<lambda>r. r\<lparr>status := BlockProved\<rparr>) (rows db1),
    calls := calls db1 @ [(CallUpdateBlockStatus (ID msg) BlockProved, True)]\<rparr>"
  define db3 where "db3 = db2\<lparr>calls := calls db2 @ [(CallGetByNumber (ID msg), True)]\<rparr>"
  define row3 where "row3 = row\<lparr>row_proof := Some (Proof (msg_Proof msg)),
              final_pair := Some (FinalPair (msg_Proof msg)), proof_time_sec := Some secs,
              status := BlockProved\<rparr>"
  have f: "faults db1 = []" "faults db2 = []" "faults db3 = []"
    using db(2) by (simp_all add: db1_def db2_def db3_def)
  have u1: "UpdateProofByNumber db (ID msg) (Proof (msg_Proof msg)) (FinalPair (msg_Proof msg)) secs
            = (None, db1)"
    using db(2) by (simp add: UpdateProofByNumber_ok db1_def)
  have u2: "UpdateBlockStatus db1 (ID msg) BlockProved = (None, db2)"
    using f(1) by (simp add: UpdateBlockStatus_ok db2_def)
  have r3: "map_of (rows db2) (ID msg) = Some row3"
    using row by (simp add: db2_def db1_def row3_def map_of_map_entry)
  obtain rest where flt: "filter (\<lambda>(k, r). k = ID msg) (rows db2) = (ID msg, row3) # rest"
    using filter_key_hd [OF r3] by (elim exE)
  have u3: "GetBlockResults_number db2 (ID msg) = ((block row # map (\<lambda>(k, r). block r) rest, None), db3)"
    using f(2) flt by (simp add: GetBlockResults_number_ok db3_def row3_def)
  have c: "calls db3 = calls db @ [(CallUpdateProofByNumber (ID msg), True),
                                  (CallUpdateBlockStatus (ID msg) BlockProved, True),
                                  (CallGetByNumber (ID msg), True)]"
    by (simp add: db3_def db2_def db1_def)
  have st3: "status_of db3 (ID msg) = Some BlockProved"
    using r3 by (simp add: status_of_def db3_def row3_def)
  have h: "HandleZkProof m now pk (Inr msg) =
             (case v (block row) (msg_Proof msg) of
                (success, Some verr) \<Rightarrow>
                  HandleZkProof_final (addFailedSession m s verr) db3 s pk (ID msg) False
              | (success, None) \<Rightarrow> HandleZkProof_final m db3 s pk (ID msg) success)"
    using sess part ok db(1) v u1 u2 u3
    by (simp add: HandleZkProof_def HandleZkProof_accepted_def Let_def secs_def [symmetric])
  show ?thesis using f(3) c st3 h by blast
qed


lemma HandleZkProof_final_result:
  assumes "finishChan s < length (chans m)"
    and "length (chans m ! finishChan s) < proofAndPkBufferSize"
    and "faults db3 = []"
    and "status_of db3 n = Some BlockProved"
    and "status_writes n (calls db3) = ws"
  shows "\<exists>m' db'. HandleZkProof_final m db3 s pk n success = Returned None m' \<and>
           orm m' = Some db' \<and>
           status_writes n (calls db') = ws @ [if success then BlockVerified else BlockFailed] \<and>
           status_of db' n = Some (if success then BlockVerified else BlockFailed) \<and>
           failedSessionInfos m' = failedSessionInfos m \<and>
           chans m' ! finishChan s = chans m ! finishChan s @
             [(pk, if success then rollerProofValid else rollerProofInvalid)]"
proof -
  have "status_of (db3\<lparr>rows := AList.map_entry n
           (\<lambda>r. r\<lparr>status := if success then BlockVerified else BlockFailed\<rparr>) (rows db3),
         calls := calls db3 @
           [(CallUpdateBlockStatus n (if success then BlockVerified else BlockFailed), True)]\<rparr>) n
        = Some (if success then BlockVerified else BlockFailed)"
    using assms(4) by (auto simp: status_of_def map_of_map_entry)
  then show ?thesis
    using assms(1,5)
    by (simp add: HandleZkProof_final_ok [OF assms(1,2,3)] status_writes_append)
qed

text \<open>
  C6. \<open>HandleZkProof\<close> tells a verifier error from a verdict of false. For a proof
  with status ok from a participant that has no valid proof yet, with a verifier
  configured, a task store whose calls succeed and room in the channel of the session:
  when the verifier returns an error, a failed session record carrying that error is
  stored and the outcome is taken as not successful (the task is set to
  \<open>BlockProved\<close>, then \<open>BlockFailed\<close>); when the verifier returns false without
  error, the task is set to \<open>BlockProved\<close>, then \<open>BlockFailed\<close>, and no failed
  session record is stored; when it returns true, the task is set to \<open>BlockProved\<close>,
  then \<open>BlockVerified\<close>.
\<close>

theorem HandleZkProof_verifier_verdicts:
  assumes sess: "map_of (sessions m) (ID msg) = Some s"
    and part: "map_of (rollers_of m s) pk = Some st" "st \<noteq> rollerProofValid"
    and ok: "Status msg = StatusOk"
    and db: "orm m = Some db" "faults db = []"
    and v: "verifier m = Some v"
    and row: "map_of (rows db) (ID msg) = Some row"
    and room: "finishChan s < length (chans m)"
      "length (chans m ! finishChan s) < proofAndPkBufferSize"
    and verdict: "v (block row) (msg_Proof msg) = (success, verr)"
  shows "(\<forall>e. verr = Some e \<longrightarrow>
            (\<exists>m' db'. HandleZkProof m now pk (Inr msg) = Returned None m' \<and>
               orm m' = Some db' \<and>
               map_option info_error (map_of (failedSessionInfos m') (id_sess s)) = Some e \<and>
               status_writes (ID msg) (calls db')
                 = status_writes (ID msg) (calls db) @ [BlockProved, BlockFailed] \<and>
               status_of db' (ID msg) = Some BlockFailed \<and>
               chans m' ! finishChan s = chans m ! finishChan s @ [(pk, rollerProofInvalid)])) \<and>
         (verr = None \<and> \<not> success \<longrightarrow>
            (\<exists>m' db'. HandleZkProof m now pk (Inr msg) = Returned None m' \<and>
               orm m' = Some db' \<and>
               failedSessionInfos m' = failedSessionInfos m \<and>
               status_writes (ID msg) (calls db')
                 = status_writes (ID msg) (calls db) @ [BlockProved, BlockFailed] \<and>
               status_of db' (ID msg) = Some BlockFailed \<and>
               chans m' ! finishChan s = chans m ! finishChan s @ [(pk, rollerProofInvalid)])) \<and>
         (verr = None \<and> success \<longrightarrow>
            (\<exists>m' db'. HandleZkProof m now pk (Inr msg) = Returned None m' \<and>
               orm m' = Some db' \<and>
               failedSessionInfos m' = failedSessionInfos m \<and>
               status_writes (ID msg) (calls db')
                 = status_writes (ID msg) (calls db) @ [BlockProved, BlockVerified] \<and>
               status_of db' (ID msg) = Some BlockVerified \<and>
               chans m' ! finishChan s = chans m ! finishChan s @ [(pk, rollerProofValid)]))"
proof -
  obtain db3 where f3: "faults db3 = []"
    and c3: "calls db3 = calls db @ [(CallUpdateProofByNumber (ID msg), True),
                                  (CallUpdateBlockStatus (ID msg) BlockProved, True),
                                  (CallGetByNumber (ID msg), True)]"
    and s3: "status_of db3 (ID msg) = Some BlockProved"
    and h: "HandleZkProof m now pk (Inr msg) =
             (case v (block row) (msg_Proof msg) of
                (success, Some verr) \<Rightarrow>
                  HandleZkProof_final (addFailedSession m s verr) db3 s pk (ID msg) False
              | (success, None) \<Rightarrow> HandleZkProof_final m db3 s pk (ID msg) success)"
    using HandleZkProof_reaches_verifier [OF sess part ok db v row, of now] by (elim exE conjE)
  have w3: "status_writes (ID msg) (calls db3) = status_writes (ID msg) (calls db) @ [BlockProved]"
    by (simp add: c3 status_writes_append)
  show ?thesis
  proof (intro conjI allI impI)
    fix e assume e: "verr = Some e"
    have room': "finishChan s < length (chans (addFailedSession m s e))"
      "length (chans (addFailedSession m s e) ! finishChan s) < proofAndPkBufferSize"
      using room by (simp_all add: addFailedSession_def)
    have hh: "HandleZkProof m now pk (Inr msg)
              = HandleZkProof_final (addFailedSession m s e) db3 s pk (ID msg) False"
      using h verdict e by simp
    have info: "map_option info_error (map_of (failedSessionInfos (addFailedSession m s e)) (id_sess s))
                = Some e"
      by (simp add: addFailedSession_def update_conv)
    have ch: "chans (addFailedSession m s e) = chans m"
      by (simp add: addFailedSession_def)
    show "\<exists>m' db'. HandleZkProof m now pk (Inr msg) = Returned None m' \<and>
               orm m' = Some db' \<and>
               map_option info_error (map_of (failedSessionInfos m') (id_sess s)) = Some e \<and>
               status_writes (ID msg) (calls db')
                 = status_writes (ID msg) (calls db) @ [BlockProved, BlockFailed] \<and>
               status_of db' (ID msg) = Some BlockFailed \<and>
               chans m' ! finishChan s = chans m ! finishChan s @ [(pk, rollerProofInvalid)]"
      using HandleZkProof_final_result [OF room' f3 s3 w3, of pk False] info ch
      by (auto simp: hh)
  next
    assume a: "verr = None \<and> \<not> success"
    have hh: "HandleZkProof m now pk (Inr msg) = HandleZkProof_final m db3 s pk (ID msg) False"
      using h verdict a by simp
    show "\<exists>m' db'. HandleZkProof m now pk (Inr msg) = Returned None m' \<and>
               orm m' = Some db' \<and>
               failedSessionInfos m' = failedSessionInfos m \<and>
               status_writes (ID msg) (calls db')
                 = status_writes (ID msg) (calls db) @ [BlockProved, BlockFailed] \<and>
               status_of db' (ID msg) = Some BlockFailed \<and>
               chans m' ! finishChan s = chans m ! finishChan s @ [(pk, rollerProofInvalid)]"
      using HandleZkProof_final_result [OF room f3 s3 w3, of pk False]
      by (auto simp: hh)
  next
    assume a: "verr = None \<and> success"
    have hh: "HandleZkProof m now pk (Inr msg) = HandleZkProof_final m db3 s pk (ID msg) True"
      using h verdict a by simp
    show "\<exists>m' db'. HandleZkProof m now pk (Inr msg) = Returned None m' \<and>
               orm m' = Some db' \<and>
               failedSessionInfos m' = failedSessionInfos m \<and>
               status_writes (ID msg) (calls db')
                 = status_writes (ID msg) (calls db) @ [BlockProved, BlockVerified] \<and>
               status_of db' (ID msg) = Some BlockVerified \<and>
               chans m' ! finishChan s = chans m ! finishChan s @ [(pk, rollerProofValid)]"
      using HandleZkProof_final_result [OF room f3 s3 w3, of pk True]
      by (auto simp: hh)
  qed
qed

lemma ex_verifying_facts:
  "map_of (sessions (ex_manager_verifying v)) 100 = Some ex_session_100"
  "map_of (rollers_of (ex_manager_verifying v) ex_session_100) ''pkC'' = Some rollerAssigned"
  "rollerAssigned \<noteq> rollerProofValid"
  "Status ex_msg_ok = StatusOk"
  "orm (ex_manager_verifying v) = Some ex_db_assigned"
  "faults ex_db_assigned = []"
  "verifier (ex_manager_verifying v) = Some v"
  "map_of (rows ex_db_assigned) 100 = Some ex_row_100"
  "0 < proofAndPkBufferSize"
  "finishChan ex_session_100 < length (chans (ex_manager_verifying v))"
  "length (chans (ex_manager_verifying v) ! finishChan ex_session_100) < proofAndPkBufferSize"
  by (simp_all add: ex_manager_verifying_def ex_running_defs ex_msg_ok_def ex_row_100_def
      rollers_of_def proofAndPkBufferSize_def)

lemma ex_verifying_values:
  "ID ex_msg_ok = 100" "id_sess ex_session_100 = 100" "calls ex_db_assigned = []"
  "failedSessionInfos (ex_manager_verifying v) = []"
  "chans (ex_manager_verifying v) ! finishChan ex_session_100 = []"
  by (simp_all add: ex_manager_verifying_def ex_running_defs ex_msg_ok_def)

theorem HandleZkProof_verifier_verdicts_witness:
  "ex_verifier_err (block ex_row_100) (msg_Proof ex_msg_ok) = (True, Some ''rpc down'') \<and>
   (\<exists>m' db'. HandleZkProof (ex_manager_verifying ex_verifier_err) 9 ''pkC'' (Inr ex_msg_ok)
        = Returned None m' \<and>
      orm m' = Some db' \<and>
      map_option info_error (map_of (failedSessionInfos m') 100) = Some ''rpc down'' \<and>
      status_writes 100 (calls db') = [BlockProved, BlockFailed] \<and>
      status_of db' 100 = Some BlockFailed) \<and>
   ex_verifier_false (block ex_row_100) (msg_Proof ex_msg_ok) = (False, None) \<and>
   (\<exists>m' db'. HandleZkProof (ex_manager_verifying ex_verifier_false) 9 ''pkC'' (Inr ex_msg_ok)
        = Returned None m' \<and>
      orm m' = Some db' \<and>
      failedSessionInfos m' = [] \<and>
      status_writes 100 (calls db') = [BlockProved, BlockFailed] \<and>
      status_of db' 100 = Some BlockFailed) \<and>
   ex_verifier_true (block ex_row_100) (msg_Proof ex_msg_ok) = (True, None) \<and>
   (\<exists>m' db'. HandleZkProof (ex_manager_verifying ex_verifier_true) 9 ''pkC'' (Inr ex_msg_ok)
        = Returned None m' \<and>
      orm m' = Some db' \<and>
      failedSessionInfos m' = [] \<and>
      status_writes 100 (calls db') = [BlockProved, BlockVerified] \<and>
      status_of db' 100 = Some BlockVerified)"
proof -
  have e: "ex_verifier_err (block ex_row_100) (msg_Proof ex_msg_ok) = (True, Some ''rpc down'')"
    by (simp add: ex_verifier_err_def)
  have f: "ex_verifier_false (block ex_row_100) (msg_Proof ex_msg_ok) = (False, None)"
    by (simp add: ex_verifier_false_def)
  have t: "ex_verifier_true (block ex_row_100) (msg_Proof ex_msg_ok) = (True, None)"
    by (simp add: ex_verifier_true_def)
  have 1: "\<exists>m' db'. HandleZkProof (ex_manager_verifying ex_verifier_err) 9 ''pkC'' (Inr ex_msg_ok)
        = Returned None m' \<and>
      orm m' = Some db' \<and>
      map_option info_error (map_of (failedSessionInfos m') 100) = Some ''rpc down'' \<and>
      status_writes 100 (calls db') = [BlockProved, BlockFailed] \<and>
      status_of db' 100 = Some BlockFailed"
    using HandleZkProof_verifier_verdicts [where m = "ex_manager_verifying ex_verifier_err"
        and msg = ex_msg_ok and s = ex_session_100 and pk = "''pkC''" and st = rollerAssigned
        and db = ex_db_assigned and v = ex_verifier_err and row = ex_row_100 and success = True
        and verr = "Some ''rpc down''" and now = 9]
    by (auto simp: ex_verifying_facts ex_verifying_values e)
  have 2: "\<exists>m' db'. HandleZkProof (ex_manager_verifying ex_verifier_false) 9 ''pkC'' (Inr ex_msg_ok)
        = Returned None m' \<and>
      orm m' = Some db' \<and>
      failedSessionInfos m' = [] \<and>
      status_writes 100 (calls db') = [BlockProved, BlockFailed] \<and>
      status_of db' 100 = Some BlockFailed"
    using HandleZkProof_verifier_verdicts [where m = "ex_manager_verifying ex_verifier_false"
        and msg = ex_msg_ok and s = ex_session_100 and pk = "''pkC''" and st = rollerAssigned
        and db = ex_db_assigned and v = ex_verifier_false and row = ex_row_100 and success = False
        and verr = "None" and now = 9]
    by (auto simp: ex_verifying_facts ex_verifying_values f)
  have 3: "\<exists>m' db'. HandleZkProof (ex_manager_verifying ex_verifier_true) 9 ''pkC'' (Inr ex_msg_ok)
        = Returned None m' \<and>
      orm m' = Some db' \<and>
      failedSessionInfos m' = [] \<and>
      status_writes 100 (calls db') = [BlockProved, BlockVerified] \<and>
      status_of db' 100 = Some BlockVerified"
    using HandleZkProof_verifier_verdicts [where m = "ex_manager_verifying ex_verifier_true"
        and msg = ex_msg_ok and s = ex_session_100 and pk = "''pkC''" and st = rollerAssigned
        and db = ex_db_assigned and v = ex_verifier_true and row = ex_row_100 and success = True
        and verr = "None" and now = 9]
    by (auto simp: ex_verifying_facts ex_verifying_values t)
  show ?thesis using e f t 1 2 3 by blast
qed

text \<open>
  C5 fails on the code for an error of the read of the task row. The store accepts the
  proof and the update to \<open>BlockProved\<close>, then \<open>GetBlockResults\<close> fails:
  \<open>HandleZkProof\<close> returns that error and sends \<open>rollerProofInvalid\<close> on the channel
  of the session, but it issues no reset of the status, and the task stays
  \<open>BlockProved\<close>. (The error of the read is held in \<open>err\<close>, not in \<open>dbErr\<close>, which
  is the variable the deferred function tests.)
\<close>

theorem HandleZkProof_read_error_no_rollback:
  "HandleZkProof ex_manager_read_fault 9 ''pkC'' (Inr ex_msg_ok) =
     Returned (Some ''db read failed'')
       (state_of (HandleZkProof ex_manager_read_fault 9 ''pkC'' (Inr ex_msg_ok))) \<and>
   map_option calls (orm (state_of (HandleZkProof ex_manager_read_fault 9 ''pkC'' (Inr ex_msg_ok))))
     = Some [(CallUpdateProofByNumber 100, True),
             (CallUpdateBlockStatus 100 BlockProved, True),
             (CallGetByNumber 100, False)] \<and>
   map_option (\<lambda>db. status_of db 100)
       (orm (state_of (HandleZkProof ex_manager_read_fault 9 ''pkC'' (Inr ex_msg_ok))))
     = Some (Some BlockProved) \<and>
   chans (state_of (HandleZkProof ex_manager_read_fault 9 ''pkC'' (Inr ex_msg_ok)))
     = [[(''pkC'', rollerProofInvalid)]]"
  by (simp add: ex_manager_read_fault_def ex_db_read_fault_def ex_running_defs ex_msg_ok_def
      ex_verifier_true_def handle_defs store_defs rollers_of_def Let_def)

text \<open>
  The sibling path: when the store refuses to keep the proof, the reset to
  \<open>BlockUnassigned\<close> is issued and \<open>rollerProofInvalid\<close> is sent.
\<close>

lemma HandleZkProof_write_error_rolls_back:
  assumes sess: "map_of (sessions m) (ID msg) = Some s"
    and part: "map_of (rollers_of m s) pk = Some st" "st \<noteq> rollerProofValid"
    and ok: "Status msg = StatusOk"
    and db: "orm m = Some db" "faults db = Some e # fs"
    and room: "finishChan s < length (chans m)"
      "length (chans m ! finishChan s) < proofAndPkBufferSize"
  shows "\<exists>m' db'. HandleZkProof m now pk (Inr msg) = Returned (Some e) m' \<and>
           orm m' = Some db' \<and>
           calls db' = calls db @
             [(CallUpdateProofByNumber (ID msg), False),
              (CallUpdateBlockStatus (ID msg) BlockUnassigned, next_ok (db\<lparr>faults := fs\<rparr>))] \<and>
           chans m' ! finishChan s = chans m ! finishChan s @ [(pk, rollerProofInvalid)]"
proof -
  define db1 where "db1 = db\<lparr>faults := fs,
    calls := calls db @ [(CallUpdateProofByNumber (ID msg), False)]\<rparr>"
  have u1: "UpdateProofByNumber db (ID msg) p fp secs = (Some e, db1)" for p fp secs
    using db(2) by (simp add: UpdateProofByNumber_def next_fault_def record_call_def db1_def)
  have h: "HandleZkProof m now pk (Inr msg) =
           HandleZkProof_deferred m db1 s pk (ID msg) (Some e) False (Some e)"
    using sess part ok db(1) by (simp add: HandleZkProof_def HandleZkProof_accepted_def Let_def u1)
  have c: "calls (snd (UpdateBlockStatus db1 (ID msg) BlockUnassigned)) = calls db @
             [(CallUpdateProofByNumber (ID msg), False),
              (CallUpdateBlockStatus (ID msg) BlockUnassigned, next_ok (db\<lparr>faults := fs\<rparr>))]"
    by (simp add: UpdateBlockStatus_calls db1_def next_ok_def)
  show ?thesis
    using room c by (simp add: h HandleZkProof_deferred_def chan_send_def Let_def)
qed

subsection \<open>Executions\<close>



















lemma UpdateBlockStatus_fst: "fst (UpdateBlockStatus db n st) = None \<longleftrightarrow> next_ok db"
  by (cases "faults db")
     (auto simp: UpdateBlockStatus_def next_fault_def next_ok_def split: option.splits)

lemma UpdateBlockStatus_writes:
  "status_writes k (calls (snd (UpdateBlockStatus db n st))) =
     status_writes k (calls db) @ (if k = n \<and> next_ok db then [st] else [])"
  by (simp add: UpdateBlockStatus_calls status_writes_append)

lemma UpdateProofByNumber_writes:
  "status_writes k (calls (snd (UpdateProofByNumber db n p fp secs))) = status_writes k (calls db)"
  by (cases "faults db")
     (auto simp: UpdateProofByNumber_def next_fault_def record_call_def status_writes_append
        split: option.splits)

lemma GetBlockResults_number_writes:
  "status_writes k (calls (snd (GetBlockResults_number db n))) = status_writes k (calls db)"
  by (cases "faults db")
     (auto simp: GetBlockResults_number_def next_fault_def record_call_def status_writes_append
        split: option.splits)

lemma chan_send_orm: "chan_send m c v = Some m' \<Longrightarrow> orm m' = orm m"
  by (auto simp: chan_send_def split: if_splits)

lemma HandleZkProof_deferred_orm:
  "orm (state_of (HandleZkProof_deferred m db s pk n dbErr success ret)) =
     Some (if dbErr \<noteq> None then snd (UpdateBlockStatus db n BlockUnassigned) else db)"
proof -
  have *: "orm (state_of
       (case chan_send (m\<lparr>orm := Some d\<rparr>) (finishChan s) (pk, st) of
           None \<Rightarrow> Blocked (m\<lparr>orm := Some d\<rparr>)
         | Some m2 \<Rightarrow> Returned ret m2)) = Some d" for d st
  proof (cases "chan_send (m\<lparr>orm := Some d\<rparr>) (finishChan s) (pk, st)")
    case None
    then show ?thesis by simp
  next
    case (Some m2)
    then show ?thesis using chan_send_orm [OF Some] by simp
  qed
  show ?thesis
    unfolding HandleZkProof_deferred_def Let_def by (rule *)
qed

lemma HandleZkProof_deferred_writes:
  "writes_of (state_of (HandleZkProof_deferred m db s pk n dbErr success ret)) k =
     status_writes k (calls db) @
       (if dbErr \<noteq> None \<and> k = n \<and> next_ok db then [BlockUnassigned] else [])"
  by (simp add: writes_of_def HandleZkProof_deferred_orm UpdateBlockStatus_writes)

lemma HandleZkProof_final_writes:
  "\<exists>b. writes_of (state_of (HandleZkProof_final m db s pk n success)) k =
          status_writes k (calls db) @ b \<and>
        (b = [] \<or> (k = n \<and> (b = [BlockVerified] \<or> b = [BlockFailed] \<or> b = [BlockUnassigned])))"
proof -
  obtain dbErr db1 where u: "UpdateBlockStatus db n (if success then BlockVerified else BlockFailed)
      = (dbErr, db1)"
    by (cases "UpdateBlockStatus db n (if success then BlockVerified else BlockFailed)")
  have e: "dbErr = None \<longleftrightarrow> next_ok db"
    using UpdateBlockStatus_fst [of db n "if success then BlockVerified else BlockFailed"] u by simp
  have w: "status_writes k (calls db1) = status_writes k (calls db) @
      (if k = n \<and> next_ok db then [if success then BlockVerified else BlockFailed] else [])"
    using UpdateBlockStatus_writes [of k db n "if success then BlockVerified else BlockFailed"] u
    by simp
  have "writes_of (state_of (HandleZkProof_final m db s pk n success)) k =
     status_writes k (calls db1) @
       (if dbErr \<noteq> None \<and> k = n \<and> next_ok db1 then [BlockUnassigned] else [])"
    using u by (simp add: HandleZkProof_final_def Let_def HandleZkProof_deferred_writes)
  then show ?thesis using e w by auto
qed


lemma HandleZkProof_body_writes:
  assumes sess: "map_of (sessions m) (ID msg) = Some s"
    and part: "map_of (rollers_of m s) pk = Some st" "st \<noteq> rollerProofValid"
    and db: "orm m = Some db"
  shows "\<exists>b. writes_of (state_of (HandleZkProof m now pk (Inr msg))) k =
           status_writes k (calls db) @ b \<and> b \<in> set proof_blocks"
proof (cases "Status msg = StatusOk")
  case False
  obtain dbErr db1 where u: "UpdateBlockStatus db (ID msg) BlockFailed = (dbErr, db1)"
    by (cases "UpdateBlockStatus db (ID msg) BlockFailed")
  have e: "dbErr = None \<longleftrightarrow> next_ok db"
    using UpdateBlockStatus_fst [of db "ID msg" BlockFailed] u by simp
  have w: "status_writes k (calls db1) = status_writes k (calls db) @
      (if k = ID msg \<and> next_ok db then [BlockFailed] else [])"
    using UpdateBlockStatus_writes [of k db "ID msg" BlockFailed] u by simp
  have "HandleZkProof m now pk (Inr msg) =
        HandleZkProof_deferred (addFailedSession m s (Error msg)) db1 s pk (ID msg) dbErr False None"
    using sess part db False u by (simp add: HandleZkProof_def HandleZkProof_accepted_def Let_def)
  then have "writes_of (state_of (HandleZkProof m now pk (Inr msg))) k =
     status_writes k (calls db1) @
       (if dbErr \<noteq> None \<and> k = ID msg \<and> next_ok db1 then [BlockUnassigned] else [])"
    by (simp add: HandleZkProof_deferred_writes)
  then show ?thesis using e w by (auto simp: proof_blocks_def)
next
  case True
  note ok = True
  define secs :: uint64 where "secs = word_of_nat (now - startTime s)"
  obtain e1 db1 where u1: "UpdateProofByNumber db (ID msg) (Proof (msg_Proof msg))
      (FinalPair (msg_Proof msg)) secs = (e1, db1)"
    by (cases "UpdateProofByNumber db (ID msg) (Proof (msg_Proof msg))
      (FinalPair (msg_Proof msg)) secs")
  have w1: "status_writes k (calls db1) = status_writes k (calls db)"
    using UpdateProofByNumber_writes [of k db "ID msg" "Proof (msg_Proof msg)"
        "FinalPair (msg_Proof msg)" secs] u1 by simp
  show ?thesis
  proof (cases e1)
    case (Some err)
    have "HandleZkProof m now pk (Inr msg) =
          HandleZkProof_deferred m db1 s pk (ID msg) (Some err) False (Some err)"
      using sess part db ok u1 Some by (simp add: HandleZkProof_def HandleZkProof_accepted_def Let_def secs_def [symmetric])
    then have "writes_of (state_of (HandleZkProof m now pk (Inr msg))) k =
       status_writes k (calls db1) @
         (if k = ID msg \<and> next_ok db1 then [BlockUnassigned] else [])"
      by (simp add: HandleZkProof_deferred_writes)
    then show ?thesis using w1 by (auto simp: proof_blocks_def)
  next
    case None
    note e1 = None
    obtain e2 db2 where u2: "UpdateBlockStatus db1 (ID msg) BlockProved = (e2, db2)"
      by (cases "UpdateBlockStatus db1 (ID msg) BlockProved")
    have e2: "e2 = None \<longleftrightarrow> next_ok db1"
      using UpdateBlockStatus_fst [of db1 "ID msg" BlockProved] u2 by simp
    have w2: "status_writes k (calls db2) = status_writes k (calls db) @
        (if k = ID msg \<and> next_ok db1 then [BlockProved] else [])"
      using UpdateBlockStatus_writes [of k db1 "ID msg" BlockProved] u2 w1 by simp
    show ?thesis
    proof (cases e2)
      case (Some err)
      have "HandleZkProof m now pk (Inr msg) =
            HandleZkProof_deferred m db2 s pk (ID msg) (Some err) False (Some err)"
        using sess part db ok u1 e1 u2 Some
        by (simp add: HandleZkProof_def HandleZkProof_accepted_def Let_def secs_def [symmetric])
      then have "writes_of (state_of (HandleZkProof m now pk (Inr msg))) k =
         status_writes k (calls db2) @
           (if k = ID msg \<and> next_ok db2 then [BlockUnassigned] else [])"
        by (simp add: HandleZkProof_deferred_writes)
      then show ?thesis using w2 e2 Some by (auto simp: proof_blocks_def)
    next
      case None
      note e2n = None
      have w2': "status_writes k (calls db2) = status_writes k (calls db) @
          (if k = ID msg then [BlockProved] else [])"
        using w2 e2 e2n by simp
      have fin: "\<exists>b. writes_of (state_of (HandleZkProof_final m' db' s pk (ID msg) success)) k =
                   status_writes k (calls db) @ b \<and> b \<in> set proof_blocks"
        if "status_writes k (calls db') = status_writes k (calls db2)" for m' db' success
        using HandleZkProof_final_writes [of m' db' s pk "ID msg" success k] that w2'
        by (auto simp: proof_blocks_def)
      show ?thesis
      proof (cases "verifier m")
        case None
        have "HandleZkProof m now pk (Inr msg) = HandleZkProof_final m db2 s pk (ID msg) True"
          using sess part db ok u1 e1 u2 e2n None
          by (simp add: HandleZkProof_def HandleZkProof_accepted_def Let_def secs_def [symmetric])
        then show ?thesis using fin [of db2 m True] by simp
      next
        case (Some v)
        obtain brs err db3 where u3: "GetBlockResults_number db2 (ID msg) = ((brs, err), db3)"
          by (cases "GetBlockResults_number db2 (ID msg)") auto
        have w3: "status_writes k (calls db3) = status_writes k (calls db2)"
          using GetBlockResults_number_writes [of k db2 "ID msg"] u3 by simp
        show ?thesis
        proof (cases "brs = []")
          case True
          have "HandleZkProof m now pk (Inr msg) =
                HandleZkProof_deferred m db3 s pk (ID msg) None False err"
            using sess part db ok u1 e1 u2 e2n Some u3 True
            by (simp add: HandleZkProof_def HandleZkProof_accepted_def Let_def secs_def [symmetric])
          then have "writes_of (state_of (HandleZkProof m now pk (Inr msg))) k =
             status_writes k (calls db3)"
            by (simp add: HandleZkProof_deferred_writes)
          then show ?thesis using w3 w2' by (auto simp: proof_blocks_def)
        next
          case False
          obtain success verr where vr: "v (hd brs) (msg_Proof msg) = (success, verr)"
            by (cases "v (hd brs) (msg_Proof msg)")
          show ?thesis
          proof (cases verr)
            case None
            have "HandleZkProof m now pk (Inr msg) =
                  HandleZkProof_final m db3 s pk (ID msg) success"
              using sess part db ok u1 e1 u2 e2n Some u3 False vr None
              by (simp add: HandleZkProof_def HandleZkProof_accepted_def Let_def secs_def [symmetric])
            then show ?thesis using fin [OF w3, of m success] by simp
          next
            case (Some ve)
            have "HandleZkProof m now pk (Inr msg) =
                  HandleZkProof_final (addFailedSession m s ve) db3 s pk (ID msg) False"
              using sess part db ok u1 e1 u2 e2n \<open>verifier m = Some v\<close> u3 False vr Some
              by (simp add: HandleZkProof_def HandleZkProof_accepted_def Let_def secs_def [symmetric])
            then show ?thesis using fin [OF w3, of "addFailedSession m s ve" False] by simp
          qed
        qed
      qed
    qed
  qed
qed

lemma run_append: "run jsonMarshal m (evs @ evs') = run jsonMarshal (run jsonMarshal m evs) evs'"
  by (induction evs arbitrary: m) simp_all





lemma ex_run_invalid:
  "run ex_marshal ex_new ex_events_invalid =
     \<lparr>OrderSession = ''ASC'', conns = [ex_idle], rand_src = [0, 0], 
      sent = [(''pkC'', \<lparr>Type = MsgBlockTrace, Payload = ''frame''\<rparr>)],
      sessions = [(100, ex_session_100)], failedSessionInfos = [],
      rollerMaps = [[(''pkC'', rollerProofInvalid)]], chans = [[]],
      verifier = Some ex_verifier_checks,
      orm = Some \<lparr>rows = [(100, \<lparr>block = ex_trace, status = BlockFailed,
                 row_proof = Some ''ZZ'', final_pair = Some ''BB'', proof_time_sec = Some 4\<rparr>)],
            faults = [],
            calls = [(CallUpdateBlockStatus 100 BlockAssigned, True),
                     (CallUpdateProofByNumber 100, True),
                     (CallUpdateBlockStatus 100 BlockProved, True),
                     (CallGetByNumber 100, True),
                     (CallUpdateBlockStatus 100 BlockFailed, True)]\<rparr>,
      goroutines = [(100, ex_session_100)]\<rparr>"
  by (simp add: ex_events_invalid_def run_defs store_defs select_defs start_defs handle_defs Let_def)














subsection \<open>The status writes of a task\<close>

lemma HandleZkProof_writes:
  "\<exists>b. writes_of (state_of (HandleZkProof m now pk decoded)) k = writes_of m k @ b \<and>
        b \<in> set proof_blocks"
proof -
  have same: "state_of (HandleZkProof m now pk decoded) = m \<Longrightarrow> ?thesis"
    by (simp add: proof_blocks_def)
  show ?thesis
  proof (cases decoded)
    case (Inl err)
    then show ?thesis by (intro same) (simp add: HandleZkProof_def HandleZkProof_accepted_def)
  next
    case (Inr msg)
    show ?thesis
    proof (cases "map_of (sessions m) (ID msg)")
      case None
      then show ?thesis using Inr by (intro same) (simp add: HandleZkProof_def HandleZkProof_accepted_def)
    next
      case (Some s)
      note sess = Some
      show ?thesis
      proof (cases "map_of (rollers_of m s) pk")
        case None
        then show ?thesis using Inr sess by (intro same) (simp add: HandleZkProof_def HandleZkProof_accepted_def)
      next
        case (Some st)
        note part = Some
        show ?thesis
        proof (cases "st = rollerProofValid")
          case True
          then show ?thesis using Inr sess part by (intro same) (simp add: HandleZkProof_def HandleZkProof_accepted_def)
        next
          case False
          show ?thesis
          proof (cases "orm m")
            case None
            have "orm (state_of (HandleZkProof m now pk decoded)) = None"
            proof (cases "chan_send m (finishChan s) (pk, rollerProofInvalid)")
              case None
              then show ?thesis using Inr sess part False \<open>orm m = None\<close>
                by (simp add: HandleZkProof_def HandleZkProof_accepted_def)
            next
              case (Some m1)
              then show ?thesis using Inr sess part False \<open>orm m = None\<close> chan_send_orm [OF Some]
                by (simp add: HandleZkProof_def HandleZkProof_accepted_def)
            qed
            then show ?thesis using None by (simp add: writes_of_def proof_blocks_def)
          next
            case (Some db)
            then show ?thesis
              using HandleZkProof_body_writes [OF sess part False Some, of now k] Inr
              by (simp add: writes_of_def)
          qed
        qed
      qed
    qed
  qed
qed

lemma StartProofGenerationSession_writes:
  "\<exists>b. writes_of (state_of (StartProofGenerationSession jsonMarshal now m trace)) k =
          writes_of m k @ b \<and>
        b \<in> set [[], [BlockAssigned], [BlockUnassigned]]"
proof -
  obtain r m1 where sel: "SelectRoller m = (r, m1)" by (cases "SelectRoller m")
  have o: "orm m1 = orm m" using SelectRoller_only_conns [OF sel] by simp
  have same: "orm (state_of (StartProofGenerationSession jsonMarshal now m trace)) = orm m
      \<Longrightarrow> ?thesis"
    by (simp add: writes_of_def)
  show ?thesis
  proof (cases r)
    case None
    then show ?thesis using sel o by (intro same) (simp add: StartProofGenerationSession_def)
  next
    case (Some roller)
    show ?thesis
    proof (cases "isClosed roller")
      case True
      then show ?thesis using sel o Some
        by (intro same) (simp add: StartProofGenerationSession_def)
    next
      case False
      note op = False
      show ?thesis
      proof (cases "createBlockTracesMsg jsonMarshal trace")
        case (Inl err)
        then show ?thesis using sel o Some op
          by (intro same) (simp add: StartProofGenerationSession_def Let_def)
      next
        case (Inr msg)
        show ?thesis
        proof (cases "sendMessage roller msg")
          case (Some err)
          then show ?thesis using sel o \<open>r = Some roller\<close> op Inr
            by (intro same) (simp add: StartProofGenerationSession_def Let_def)
        next
          case None
          note snd = None
          show ?thesis
          proof (cases "orm m")
            case None
            then show ?thesis using sel o \<open>r = Some roller\<close> op Inr snd
              by (intro same) (simp add: StartProofGenerationSession_def Let_def)
          next
            case (Some db)
            define n where "n = Uint64 (Number trace)"
            obtain dbErr db1 where u: "UpdateBlockStatus db n BlockAssigned = (dbErr, db1)"
              by (cases "UpdateBlockStatus db n BlockAssigned")
            have e: "dbErr = None \<longleftrightarrow> next_ok db"
              using UpdateBlockStatus_fst [of db n BlockAssigned] u by simp
            have w1: "status_writes k (calls db1) = status_writes k (calls db) @
                (if k = n \<and> next_ok db then [BlockAssigned] else [])"
              using UpdateBlockStatus_writes [of k db n BlockAssigned] u by simp
            have "orm (state_of (StartProofGenerationSession jsonMarshal now m trace)) =
                Some (if dbErr \<noteq> None then snd (UpdateBlockStatus db1 n BlockUnassigned) else db1)"
              using sel o \<open>r = Some roller\<close> op Inr snd Some u
              by (simp add: StartProofGenerationSession_def Let_def n_def [symmetric])
            then have "writes_of (state_of (StartProofGenerationSession jsonMarshal now m trace)) k =
                status_writes k (calls db1) @
                  (if dbErr \<noteq> None \<and> k = n \<and> next_ok db1 then [BlockUnassigned] else [])"
              by (simp add: writes_of_def UpdateBlockStatus_writes)
            then show ?thesis using e w1 Some by (auto simp: writes_of_def)
          qed
        qed
      qed
    qed
  qed
qed

lemma CollectProofs_timer_writes:
  "\<exists>b. writes_of (state_of (CollectProofs_timer m n s)) k = writes_of m k @ b \<and>
        b \<in> set [[], [BlockFailed]]"
proof (cases "length (participatingRollers m s) = 0")
  case True
  show ?thesis
  proof (cases "orm m")
    case None
    then show ?thesis using True
      by (simp add: CollectProofs_timer_def CollectProofs_deferred_def addFailedSession_def
          writes_of_def Let_def)
  next
    case (Some db)
    obtain err db1 where u: "UpdateBlockStatus db n BlockFailed = (err, db1)"
      by (cases "UpdateBlockStatus db n BlockFailed")
    have w1: "status_writes k (calls db1) = status_writes k (calls db) @
        (if k = n \<and> next_ok db then [BlockFailed] else [])"
      using UpdateBlockStatus_writes [of k db n BlockFailed] u by simp
    have "orm (state_of (CollectProofs_timer m n s)) = Some db1"
      using True Some u
      by (simp add: CollectProofs_timer_def CollectProofs_deferred_def addFailedSession_def Let_def)
    then show ?thesis using w1 Some by (auto simp: writes_of_def)
  qed
next
  case False
  obtain idx m1 where i: "Intn m (length (participatingRollers m s)) = (idx, m1)"
    by (cases "Intn m (length (participatingRollers m s))")
  have "same_sessions m1 m"
    using Intn_same [of m "length (participatingRollers m s)"] i by simp
  then have "orm (state_of (CollectProofs_timer m n s)) = orm m"
    using False i
    by (simp add: CollectProofs_timer_def CollectProofs_deferred_def same_sessions_def)
  then show ?thesis by (simp add: writes_of_def)
qed

lemma CollectProofs_recv_writes:
  "writes_of (state_of (CollectProofs_recv m s)) k = writes_of m k"
proof -
  have "orm (state_of (CollectProofs_recv m s)) = orm m"
    by (simp add: CollectProofs_recv_def Let_def split: list.splits)
  then show ?thesis by (simp add: writes_of_def)
qed


lemma fire_writes:
  "\<exists>b. writes_of (fire jsonMarshal m ev) k = writes_of m k @ b \<and> b \<in> set call_blocks"
proof -
  obtain now e where ev: "ev = (now, e)" by (cases ev)
  show ?thesis
  proof (cases e)
    case (EvStart trace)
    then show ?thesis
      using StartProofGenerationSession_writes [of jsonMarshal now m trace k] ev
      by (auto simp: call_blocks_def proof_blocks_def)
  next
    case (EvProof pk decoded)
    then show ?thesis
      using HandleZkProof_writes [of m now pk decoded k] ev
      by (auto simp: call_blocks_def)
  next
    case (EvRecv n s)
    then show ?thesis
      using CollectProofs_recv_writes [of m s k] ev
      by (simp add: call_blocks_def proof_blocks_def)
  next
    case (EvTimer n s)
    then show ?thesis
      using CollectProofs_timer_writes [of m n s k] ev
      by (auto simp: call_blocks_def proof_blocks_def)
  next
    case (EvConns rs)
    then show ?thesis using ev by (simp add: writes_of_def call_blocks_def proof_blocks_def)
  qed
qed

lemma run_writes:
  "\<exists>bs. writes_of (run jsonMarshal m evs) k = writes_of m k @ concat bs \<and>
         set bs \<subseteq> set call_blocks"
proof (induction evs arbitrary: m)
  case Nil
  show ?case by (intro exI [of _ "[]"]) simp
next
  case (Cons ev evs)
  obtain b where b: "writes_of (fire jsonMarshal m ev) k = writes_of m k @ b"
    and bm: "b \<in> set call_blocks"
    using fire_writes [of jsonMarshal m ev k] by blast
  obtain bs where bs: "writes_of (run jsonMarshal (fire jsonMarshal m ev) evs) k =
      writes_of (fire jsonMarshal m ev) k @ concat bs" and bsm: "set bs \<subseteq> set call_blocks"
    using Cons.IH [of "fire jsonMarshal m ev"] by blast
  have "writes_of (run jsonMarshal m (ev # evs)) k = writes_of m k @ concat (b # bs) \<and>
        set (b # bs) \<subseteq> set call_blocks"
    using b bm bs bsm by simp
  then show ?case by blast
qed

text \<open>
  C4, as the code has it. Along every execution, the status values written for one task
  form a concatenation of blocks, one per call, in the order of the calls:
  \<open>StartProofGenerationSession\<close> writes \<open>BlockAssigned\<close>, or \<open>BlockUnassigned\<close>
  when that write failed and the reset succeeds; one call of \<open>HandleZkProof\<close> writes
  a prefix of Proved, Verified or of Proved, Failed, or Failed alone, or, after a
  failed call on the store, the reset \<open>BlockUnassigned\<close>, alone or after Proved;
  receiving from the channel writes nothing; the deadline writes \<open>BlockFailed\<close> or
  nothing. The blocks of successive calls follow each other in any order the calls
  occur in.
\<close>

theorem status_writes_in_blocks:
  "(\<exists>bs. writes_of (run jsonMarshal m evs) n = writes_of m n @ concat bs \<and>
          set bs \<subseteq> set call_blocks) \<and>
   (\<exists>b. writes_of (state_of (StartProofGenerationSession jsonMarshal now m trace)) n =
          writes_of m n @ b \<and>
        b \<in> set [[], [BlockAssigned], [BlockUnassigned]]) \<and>
   (\<exists>b. writes_of (state_of (HandleZkProof m now pk decoded)) n = writes_of m n @ b \<and>
        b \<in> set [[], [BlockUnassigned], [BlockFailed], [BlockProved],
                  [BlockProved, BlockUnassigned], [BlockProved, BlockVerified],
                  [BlockProved, BlockFailed]]) \<and>
   writes_of (state_of (CollectProofs_recv m s)) n = writes_of m n \<and>
   (\<exists>b. writes_of (state_of (CollectProofs_timer m k s)) n = writes_of m n @ b \<and>
        b \<in> set [[], [BlockFailed]])"
  using run_writes [of jsonMarshal m evs n]
    StartProofGenerationSession_writes [of jsonMarshal now m trace n]
    HandleZkProof_writes [of m now pk decoded n]
    CollectProofs_recv_writes [of m s n]
    CollectProofs_timer_writes [of m k s n]
  by (simp add: proof_blocks_def)

lemma ex_run_resubmitted:
  "writes_of (run ex_marshal ex_new (ex_events_invalid @ [(11, EvProof ''pkC'' (Inr ex_msg_ok))])) 100
     = [BlockAssigned, BlockProved, BlockFailed, BlockProved, BlockVerified]"
  by (simp add: run_append ex_run_invalid)
     (simp add: run_defs store_defs handle_defs rollers_of_def writes_of_def Let_def)

text \<open>
  C4, as stated, fails: task 100 is assigned, the first proof is rejected by the
  verifier and the second one is accepted. The writes are Assigned, Proved, Failed,
  Proved, Verified, which after the initial Unassigned is a prefix of none of the four
  sequences of the claim.
\<close>

theorem status_writes_in_blocks_counterexample:
  "writes_of ex_new 100 = [] \<and>
   map_option (\<lambda>db. status_of db 100) (orm ex_new) = Some (Some BlockUnassigned) \<and>
   writes_of (run ex_marshal ex_new (ex_events_invalid @ [(11, EvProof ''pkC'' (Inr ex_msg_ok))])) 100
     = [BlockAssigned, BlockProved, BlockFailed, BlockProved, BlockVerified] \<and>
   \<not> list_ex (prefix (BlockUnassigned #
         writes_of (run ex_marshal ex_new
           (ex_events_invalid @ [(11, EvProof ''pkC'' (Inr ex_msg_ok))])) 100))
       claimed_sequences"
  by (simp add: ex_run_resubmitted)
     (simp add: claimed_sequences_def writes_of_def status_of_def run_defs)

theorem status_writes_in_blocks_witness:
  "writes_of (run ex_marshal ex_new (ex_events_invalid @ [(11, EvProof ''pkC'' (Inr ex_msg_ok))])) 100
     = writes_of ex_new 100 @
       concat [[BlockAssigned], [BlockProved, BlockFailed], [BlockProved, BlockVerified]] \<and>
   set [[BlockAssigned], [BlockProved, BlockFailed], [BlockProved, BlockVerified]]
     \<subseteq> set call_blocks \<and>
   (\<exists>bs. writes_of (run ex_marshal ex_new
             (ex_events_invalid @ [(11, EvProof ''pkC'' (Inr ex_msg_ok))])) 100
           = writes_of ex_new 100 @ concat bs \<and>
         set bs \<subseteq> set call_blocks)"
  using status_writes_in_blocks [of ex_marshal ex_new
      "ex_events_invalid @ [(11, EvProof ''pkC'' (Inr ex_msg_ok))]" 100 5 ex_trace "''pkC''"
      "Inr ex_msg_ok" ex_session_100 100]
  by (simp add: ex_run_resubmitted)
     (simp add: call_blocks_def proof_blocks_def writes_of_def run_defs)

end
